theory Spec2Isabelle
  imports Complex_Main "HOL-Library.Log_Nat"
begin

section \<open>Numbers\<close>

text \<open>
  A JavaScript number is an IEEE 754 double. Every finite double is a rational number and
  the comparisons of doubles are the comparisons of rationals, so the numbers of the
  program (latencies, soak times, the polling fraction, stage orders, percentages) are
  modelled by \<open>rat\<close>. An arithmetic operation of the code does not return the exact
  result but the double nearest to it, and of two nearest doubles the one with the even
  significand: \<open>round_double\<close> below. A double has a significand of 53 bits, so the
  doubles of the binade \<open>2^e \<le> |x| < 2^(e+1)\<close> are the multiples of \<open>2^(e-52)\<close>, and
  below \<open>2^(-1022)\<close>, in the subnormal range, they are the multiples of \<open>2^(-1074)\<close>.
  The model has no largest double: a result that rounds to \<open>2^1024\<close> or beyond is
  \<open>Infinity\<close> in the code and has no counterpart here; \<open>NaN\<close> and the sign of zero are
  not modelled either. \<open>Math.floor\<close> and \<open>Math.max\<close> are exact.
  Points in time are milliseconds since the epoch (\<open>int\<close>): the ISO string the code
  stores is \<open>new Date(ms).toISOString()\<close> and \<open>new Date(iso).getTime()\<close> reads the
  same \<open>ms\<close> back; they stay far below \<open>2^53\<close>, where sums, differences and products
  of integers are exact in doubles and the floor of a quotient of doubles is the floor
  of the exact quotient (\<open>js_div_floor\<close> below shows it for a dividend that is not
  negative), so the arithmetic on them is that of \<open>int\<close>. The empty string of an unset
  time field is \<open>None\<close>.
\<close>

type_synonym number = rat
type_synonym timestamp = int

text \<open>The nearest integer, and of two nearest integers the even one.\<close>

definition round_half_even :: "rat \<Rightarrow> int" where
  "round_half_even y =
     (let n = \<lfloor>y\<rfloor>; r = y - of_int n
      in if r < 1 / 2 then n
         else if 1 / 2 < r then n + 1
         else if even n then n else n + 1)"

text \<open>
  The binade of a number other than zero, the \<open>e\<close> with \<open>2^e \<le> |x| < 2^(e+1)\<close>: for
  \<open>|x| = p / q\<close> in lowest terms, with \<open>p\<close> of \<open>a\<close> bits and \<open>q\<close> of \<open>b\<close> bits, it is
  \<open>a - b\<close> or \<open>a - b - 1\<close>.
\<close>

definition binade :: "rat \<Rightarrow> int" where
  "binade x =
     (case quotient_of \<bar>x\<bar> of
        (p, q) \<Rightarrow>
          (let e = bitlen p - bitlen q
           in if 2 powi e \<le> \<bar>x\<bar> then e else e - 1))"

text \<open>
  Rounding to a double: to the nearest multiple of the unit in the last place \<open>u\<close> of the
  binade (of \<open>2^(-1074)\<close> in the subnormal range), a tie to the even multiple.
\<close>

definition round_double :: "rat \<Rightarrow> rat" where
  "round_double x =
     (if x = 0 then 0
      else (let u = 2 powi (max (binade x) (- 1022) - 52)
            in of_int (round_half_even (x / u)) * u))"

text \<open>
  The operators \<open>-\<close>, \<open>*\<close> and \<open>/\<close> of the code on numbers. The one quotient of numbers
  the code takes is by the polling interval, which is at least 1.
\<close>

definition js_sub :: "number \<Rightarrow> number \<Rightarrow> number" where
  "js_sub a b = round_double (a - b)"

definition js_mul :: "number \<Rightarrow> number \<Rightarrow> number" where
  "js_mul a b = round_double (a * b)"

definition js_div :: "number \<Rightarrow> number \<Rightarrow> number" where
  "js_div a b = round_double (a / b)"

section \<open>SLO evaluation (sloEvaluator.ts)\<close>

datatype percentile = P999 | P99 | P90 | Median

record SLOConfig =
  percentile :: percentile
  latency_ms :: number

record ObservabilityMetrics =
  p999 :: number
  p99 :: number
  p90 :: number
  median :: number

record SLOViolation =
  v_percentile :: percentile
  expected_max_ms :: number
  actual_ms :: number
  violation_margin_ms :: number

text \<open>
  The \<open>summary\<close> string of the result only renders the two lists below for the
  console; it is left out.
\<close>

record SLOEvaluationResult =
  passed :: bool
  violations :: "SLOViolation list"

text \<open>\<open>getMetricValue\<close>: the \<open>default\<close> branch (unknown percentile) is excluded by the type.\<close>

fun getMetricValue :: "ObservabilityMetrics \<Rightarrow> percentile \<Rightarrow> number" where
  "getMetricValue metrics P999 = p999 metrics"
| "getMetricValue metrics P99 = p99 metrics"
| "getMetricValue metrics P90 = p90 metrics"
| "getMetricValue metrics Median = median metrics"

text \<open>
  The \<open>for (const slo of sloConfigs)\<close> loop of \<open>evaluateSLOs\<close>, pushing onto
  \<open>violations\<close> (the accumulator).
\<close>

fun checkSLOs ::
  "SLOViolation list \<Rightarrow> SLOConfig list \<Rightarrow> ObservabilityMetrics \<Rightarrow> SLOViolation list" where
  "checkSLOs acc [] metrics = acc"
| "checkSLOs acc (slo # rest) metrics =
     (let actualValue = getMetricValue metrics (percentile slo) in
      if actualValue > latency_ms slo
      then checkSLOs (acc @ [\<lparr>v_percentile = percentile slo,
                              expected_max_ms = latency_ms slo,
                              actual_ms = actualValue,
                              violation_margin_ms = js_sub actualValue (latency_ms slo)\<rparr>]) rest metrics
      else checkSLOs acc rest metrics)"

definition evaluateSLOs :: "SLOConfig list \<Rightarrow> ObservabilityMetrics \<Rightarrow> SLOEvaluationResult" where
  "evaluateSLOs sloConfigs metrics =
     (let vs = checkSLOs [] sloConfigs metrics in
      \<lparr>passed = (length vs = 0), violations = vs\<rparr>)"

text \<open>
  The SLO entries of a stored plan are untyped JSON (\<open>any[]\<close>). An entry is modelled by
  the two properties \<open>parseSLOsFromPlan\<close> reads: the percentile name (the empty string
  when absent) and the latency when it is a number (\<open>None\<close> otherwise).
\<close>

record RawSLO =
  raw_percentile :: string
  raw_latency_ms :: "number option"

definition percentile_of_name :: "string \<Rightarrow> percentile option" where
  "percentile_of_name s =
     (if s = ''p999'' then Some P999
      else if s = ''p99'' then Some P99
      else if s = ''p90'' then Some P90
      else if s = ''median'' then Some Median
      else None)"

fun parseSLOsFromPlan :: "RawSLO list \<Rightarrow> SLOConfig list" where
  "parseSLOsFromPlan [] = []"
| "parseSLOsFromPlan (slo # rest) =
     (case (percentile_of_name (raw_percentile slo), raw_latency_ms slo) of
        (Some p, Some l) \<Rightarrow>
          (if l \<noteq> 0 \<and> l > 0
           then \<lparr>percentile = p, latency_ms = l\<rparr> # parseSLOsFromPlan rest
           else parseSLOsFromPlan rest)
      | _ \<Rightarrow> parseSLOsFromPlan rest)"

section \<open>Release plans (plan.ts)\<close>

record PlanStage =
  order :: number
  description :: string
  target_percent :: number
  soak_time :: number
  auto_progress :: bool

record Plan =
  stages :: "PlanStage list"
  slos :: "RawSLO list"
  worker_name :: string
  polling_fraction :: number
  time_last_saved :: "timestamp option"




section \<open>Stage storage (stage.ts, class StageStorage)\<close>

datatype StageState =
  S_queued | S_running | S_awaiting_approval
  | S_done_successful | S_done_failed | S_done_cancelled
  | S_error

text \<open>
  \<open>S_error\<close> is the value \<open>"error"\<close> that \<open>updateStagesStateBad\<close> may pass to
  \<open>updateStageState\<close>. \<open>stage_done\<close> is \<open>state.startsWith("done_")\<close>.
\<close>

fun stage_done :: "StageState \<Rightarrow> bool" where
  "stage_done S_done_successful = True"
| "stage_done S_done_failed = True"
| "stage_done S_done_cancelled = True"
| "stage_done _ = False"

text \<open>
  A stage id is the string \<open>release-<releaseId>-order-<order>\<close>; it is modelled by the
  pair it is built from. The log of a stage is a string to which lines
  \<open>\n[<time>] <message>\<close> are appended; it is modelled by the list of its lines, each a
  time and a message (the empty string is the empty list). The messages are written
  without their leading pictograph.
\<close>

datatype StageId = StageId string number

definition getStageId :: "string \<Rightarrow> number \<Rightarrow> StageId" where
  "getStageId releaseId stageOrder = StageId releaseId stageOrder"

type_synonym log = "(timestamp \<times> string) list"

record Stage =
  stage_id :: StageId
  stage_order :: number
  stage_releaseId :: string
  stage_state :: StageState
  stage_time_started :: "timestamp option"
  stage_time_elapsed :: int
  stage_time_done :: "timestamp option"
  stage_logs :: log

text \<open>
  The durable object of one stage id: the record under the key \<open>main\<close> and the alarm.
  A method takes the time \<open>now\<close> its calls of \<open>Date\<close> read (one value per method
  call) and the object, and returns its result with the object after the call.
\<close>

record StageStorage =
  main :: "Stage option"
  alarm :: "timestamp option"

definition StageStorage_get :: "StageStorage \<Rightarrow> Stage option" where
  "StageStorage_get st = main st"

definition save :: "Stage \<Rightarrow> StageStorage \<Rightarrow> StageStorage" where
  "save stage st = st\<lparr>main := Some stage\<rparr>"

text \<open>\<open>Math.floor((end - start) / 1000)\<close>, where \<open>end\<close> is \<open>Date.now()\<close> without \<open>endTime\<close>.\<close>

definition calculateElapsedTime :: "timestamp \<Rightarrow> timestamp \<Rightarrow> timestamp option \<Rightarrow> int" where
  "calculateElapsedTime now startTime endTime =
     ((case endTime of Some e \<Rightarrow> e | None \<Rightarrow> now) - startTime) div 1000"

definition setAlarmIfNeeded :: "timestamp \<Rightarrow> StageStorage \<Rightarrow> StageStorage" where
  "setAlarmIfNeeded now st = st\<lparr>alarm := Some (now + 1000)\<rparr>"

definition clearAlarmIfNeeded :: "StageStorage \<Rightarrow> StageStorage" where
  "clearAlarmIfNeeded st = st\<lparr>alarm := None\<rparr>"

definition Stage_handleStateTransition ::
  "timestamp \<Rightarrow> Stage \<Rightarrow> StageState \<Rightarrow> StageStorage \<Rightarrow> Stage \<times> StageStorage" where
  "Stage_handleStateTransition now stage newState st =
     (let updatedStage = stage\<lparr>stage_state := newState\<rparr>;
          (updatedStage, st) =
            (if newState = S_running \<and> stage_state stage = S_queued
             then (updatedStage\<lparr>stage_time_started := Some now, stage_time_elapsed := 0\<rparr>,
                   setAlarmIfNeeded now st)
             else (updatedStage, st));
          (updatedStage, st) =
            (if (newState = S_done_failed \<or> newState = S_done_successful) \<and>
                (stage_state stage = S_running \<or> stage_state stage = S_awaiting_approval)
             then
               (let updatedStage = updatedStage\<lparr>stage_time_done := Some now\<rparr>;
                    updatedStage =
                      (case stage_time_started stage of
                         Some started \<Rightarrow>
                           updatedStage\<lparr>stage_time_elapsed :=
                             calculateElapsedTime now started (Some now)\<rparr>
                       | None \<Rightarrow> updatedStage)
                in (updatedStage, clearAlarmIfNeeded st))
             else (updatedStage, st))
      in (updatedStage, st))"


definition getVerboseStateMessage :: "StageState \<Rightarrow> StageState \<Rightarrow> string option" where
  "getVerboseStateMessage newState previousState =
     (if previousState = S_queued \<and> newState = S_running
        then Some ''Stage started - beginning soak period''
      else if previousState = S_running \<and> newState = S_awaiting_approval
        then Some ''Stage soak period completed - awaiting manual approval to continue''
      else if previousState = S_awaiting_approval \<and> newState = S_running
        then Some ''Stage approved by user - continuing''
      else if previousState = S_running \<and> newState = S_done_successful
        then Some ''Stage completed successfully and auto progressed''
      else if previousState = S_awaiting_approval \<and> newState = S_done_successful
        then Some ''Stage completed successfully''
      else if previousState = S_running \<and> newState = S_done_failed
        then Some ''Stage failed SLOs''
      else if previousState = S_awaiting_approval \<and> newState = S_done_cancelled
        then Some ''Stage cancelled by user - release stopped''
      else if previousState = S_awaiting_approval \<and> newState = S_done_failed
        then Some ''Stage failed while awaiting approval''
      else if previousState = S_queued \<and> newState = S_done_failed
        then Some ''Previous stage failed. This stage will not run.''
      else if previousState = S_queued \<and> newState = S_done_cancelled
        then Some ''Previous stage failed or cancelled. This stage will not run.''
      else None)"

text \<open>\<open>Partial<Stage>\<close>: the properties an update object has; \<open>{...stage, ...updates}\<close>.\<close>

record StageUpdates =
  up_id :: "StageId option"
  up_order :: "number option"
  up_releaseId :: "string option"
  up_state :: "StageState option"
  up_time_started :: "timestamp option option"
  up_time_elapsed :: "int option"
  up_time_done :: "timestamp option option"
  up_logs :: "log option"

definition logs_update :: "log \<Rightarrow> StageUpdates" where
  "logs_update l =
     \<lparr>up_id = None, up_order = None, up_releaseId = None, up_state = None,
      up_time_started = None, up_time_elapsed = None, up_time_done = None,
      up_logs = Some l\<rparr>"

definition spread :: "Stage \<Rightarrow> StageUpdates \<Rightarrow> Stage" where
  "spread stage updates =
     \<lparr>stage_id = (case up_id updates of Some v \<Rightarrow> v | None \<Rightarrow> stage_id stage),
      stage_order = (case up_order updates of Some v \<Rightarrow> v | None \<Rightarrow> stage_order stage),
      stage_releaseId =
        (case up_releaseId updates of Some v \<Rightarrow> v | None \<Rightarrow> stage_releaseId stage),
      stage_state = (case up_state updates of Some v \<Rightarrow> v | None \<Rightarrow> stage_state stage),
      stage_time_started =
        (case up_time_started updates of Some v \<Rightarrow> v | None \<Rightarrow> stage_time_started stage),
      stage_time_elapsed =
        (case up_time_elapsed updates of Some v \<Rightarrow> v | None \<Rightarrow> stage_time_elapsed stage),
      stage_time_done =
        (case up_time_done updates of Some v \<Rightarrow> v | None \<Rightarrow> stage_time_done stage),
      stage_logs = (case up_logs updates of Some v \<Rightarrow> v | None \<Rightarrow> stage_logs stage)\<rparr>"

definition updateStage ::
  "timestamp \<Rightarrow> StageUpdates \<Rightarrow> StageStorage \<Rightarrow> Stage option \<times> StageStorage" where
  "updateStage now updates st =
     (case StageStorage_get st of
        None \<Rightarrow> (None, st)
      | Some stage \<Rightarrow>
          (let previousState = stage_state stage;
               partiallyUpdated = spread stage updates;
               newState = stage_state partiallyUpdated;
               (updatedStage, st) =
                 (if previousState \<noteq> newState
                  then Stage_handleStateTransition now stage newState st
                  else (partiallyUpdated, st));
               finalStage = spread updatedStage updates
           in (Some finalStage, save finalStage st)))"

text \<open>
  \<open>addLog\<close> reads the record, then calls \<open>updateStage\<close>. \<open>addLog_continue\<close> is the
  part after the read.
\<close>

definition addLog_continue ::
  "timestamp \<Rightarrow> Stage \<Rightarrow> string \<Rightarrow> StageStorage \<Rightarrow> Stage option \<times> StageStorage" where
  "addLog_continue now stage message st =
     (let logEntry = (now, message);
          updatedLogs = stage_logs stage @ [logEntry]
      in updateStage now (logs_update updatedLogs) st)"

definition addLog :: "timestamp \<Rightarrow> string \<Rightarrow> StageStorage \<Rightarrow> Stage option \<times> StageStorage" where
  "addLog now message st =
     (case StageStorage_get st of
        None \<Rightarrow> (None, st)
      | Some stage \<Rightarrow> addLog_continue now stage message st)"

text \<open>
  \<open>updateStageState\<close> calls \<open>this.addLog(verboseLogMessage)\<close> without awaiting it and
  then saves. The call runs up to its first storage read, which is issued before the
  write of \<open>save\<close>; the rest of \<open>addLog\<close> runs after that write. The model keeps this
  order: \<open>addLog_continue\<close> gets the record read before the save and works on the
  storage after it, and it is finished before the next method call on the object. The
  value returned is \<open>updatedStage\<close>. \<open>logs || stage.logs\<close> takes the stage's log when
  the argument is absent or empty.
\<close>

definition updateStageState ::
  "timestamp \<Rightarrow> StageState \<Rightarrow> log option \<Rightarrow> StageStorage \<Rightarrow> Stage option \<times> StageStorage" where
  "updateStageState now newState logs st =
     (case StageStorage_get st of
        None \<Rightarrow> (None, st)
      | Some stage \<Rightarrow>
          (let (updatedStage, st) = Stage_handleStateTransition now stage newState st;
               updatedStage = updatedStage\<lparr>stage_logs :=
                 (case logs of
                    Some l \<Rightarrow> if l = [] then stage_logs stage else l
                  | None \<Rightarrow> stage_logs stage)\<rparr>;
               verboseLogMessage = getVerboseStateMessage newState (stage_state stage)
           in (case verboseLogMessage of
                 Some message \<Rightarrow>
                   (Some updatedStage,
                    snd (addLog_continue now stage message (save updatedStage st)))
               | None \<Rightarrow> (Some updatedStage, save updatedStage st))))"

datatype Command = Approve | Deny

definition progressStage ::
  "timestamp \<Rightarrow> Command \<Rightarrow> StageStorage \<Rightarrow> Stage option \<times> StageStorage" where
  "progressStage now command st =
     (case StageStorage_get st of
        None \<Rightarrow> (None, st)
      | Some stage \<Rightarrow>
          (let newState = (if command = Approve then S_done_successful else S_done_cancelled);
               message = (if command = Approve then ''Stage approved.''
                          else ''Stage not approved. Cancelling release...'');
               logs = stage_logs stage @ [(now, message)]
           in updateStageState now newState (Some logs) st))"

definition StageStorage_alarm :: "timestamp \<Rightarrow> StageStorage \<Rightarrow> StageStorage" where
  "StageStorage_alarm now st =
     (case StageStorage_get st of
        None \<Rightarrow> st
      | Some stage \<Rightarrow>
          (case stage_time_started stage of
             None \<Rightarrow> st
           | Some started \<Rightarrow>
               if stage_state stage \<noteq> S_running then st
               else (save (stage\<lparr>stage_time_elapsed := calculateElapsedTime now started None\<rparr>) st)
                      \<lparr>alarm := Some (now + 1000)\<rparr>))"

section \<open>Release history (stage.ts, class ReleaseHistory)\<close>

datatype ReleaseState =
  R_not_started | R_running
  | R_done_successful | R_done_stopped_manually | R_done_failed_slo
  | R_error

fun release_done :: "ReleaseState \<Rightarrow> bool" where
  "release_done R_done_successful = True"
| "release_done R_done_stopped_manually = True"
| "release_done R_done_failed_slo = True"
| "release_done _ = False"

record StageRef =
  ref_id :: StageId
  ref_order :: number

record Release =
  release_id :: string
  release_state :: ReleaseState
  plan_record :: Plan
  old_version :: string
  new_version :: string
  release_stages :: "StageRef list"
  time_created :: timestamp
  release_time_started :: "timestamp option"
  release_time_elapsed :: int
  release_time_done :: "timestamp option"

text \<open>
  The durable object of a connection's history: the list under the key \<open>history\<close>
  (the absent value reads as the empty list) and the alarm.
\<close>

record ReleaseHistory =
  releases :: "Release list"
  history_alarm :: "timestamp option"

definition MAX_RELEASES :: nat where
  "MAX_RELEASES = 100"

text \<open>\<open>Array.prototype.findIndex\<close>, with \<open>None\<close> for \<open>-1\<close>; \<open>Array.prototype.find\<close> is \<open>List.find\<close>.\<close>

fun findIndex :: "('a \<Rightarrow> bool) \<Rightarrow> 'a list \<Rightarrow> nat option" where
  "findIndex p [] = None"
| "findIndex p (x # xs) =
     (if p x then Some 0 else (case findIndex p xs of None \<Rightarrow> None | Some i \<Rightarrow> Some (Suc i)))"

definition findReleaseIndex :: "string \<Rightarrow> ReleaseHistory \<Rightarrow> nat option" where
  "findReleaseIndex rid h = findIndex (\<lambda>r. release_id r = rid) (releases h)"

definition Release_handleStateTransition ::
  "timestamp \<Rightarrow> Release \<Rightarrow> ReleaseState \<Rightarrow> ReleaseState \<Rightarrow> ReleaseHistory
     \<Rightarrow> Release \<times> ReleaseHistory" where
  "Release_handleStateTransition now release previousState newState h =
     (let updatedRelease = release;
          (updatedRelease, h) =
            (if previousState \<noteq> R_running \<and> newState = R_running
             then (updatedRelease\<lparr>release_time_started := Some now, release_time_elapsed := 0\<rparr>,
                   h\<lparr>history_alarm := Some (now + 1000)\<rparr>)
             else (updatedRelease, h));
          (updatedRelease, h) =
            (if previousState = R_running \<and> release_done newState
             then
               (let updatedRelease =
                      (case release_time_done updatedRelease of
                         None \<Rightarrow> updatedRelease\<lparr>release_time_done := Some now\<rparr>
                       | Some _ \<Rightarrow> updatedRelease);
                    updatedRelease =
                      (case release_time_started updatedRelease of
                         Some started \<Rightarrow>
                           updatedRelease\<lparr>release_time_elapsed :=
                             calculateElapsedTime now started (release_time_done updatedRelease)\<rparr>
                       | None \<Rightarrow> updatedRelease)
                in (updatedRelease, h\<lparr>history_alarm := None\<rparr>))
             else (updatedRelease, h))
      in (updatedRelease\<lparr>release_state := newState\<rparr>, h))"

definition trimReleaseHistory :: "Release list \<Rightarrow> Release list" where
  "trimReleaseHistory rs = (if length rs > MAX_RELEASES then take MAX_RELEASES rs else rs)"

definition createRelease :: "Release \<Rightarrow> ReleaseHistory \<Rightarrow> Release \<times> ReleaseHistory" where
  "createRelease release h =
     (release, h\<lparr>releases := trimReleaseHistory (release # releases h)\<rparr>)"

definition updateReleaseState ::
  "timestamp \<Rightarrow> string \<Rightarrow> ReleaseState \<Rightarrow> ReleaseHistory \<Rightarrow> bool \<times> ReleaseHistory" where
  "updateReleaseState now rid state h =
     (case findReleaseIndex rid h of
        None \<Rightarrow> (False, h)
      | Some index \<Rightarrow>
          (let previousState = release_state (releases h ! index);
               (updatedRelease, h) =
                 Release_handleStateTransition now (releases h ! index) previousState state h
           in (True, h\<lparr>releases := (releases h)[index := updatedRelease]\<rparr>)))"

definition getActiveRelease :: "ReleaseHistory \<Rightarrow> Release option" where
  "getActiveRelease h =
     find (\<lambda>release. release_state release = R_not_started \<or> release_state release = R_running)
       (releases h)"


definition getRelease :: "string \<Rightarrow> ReleaseHistory \<Rightarrow> Release option" where
  "getRelease rid h = find (\<lambda>release. release_id release = rid) (releases h)"

definition removeRelease :: "string \<Rightarrow> ReleaseHistory \<Rightarrow> bool \<times> ReleaseHistory" where
  "removeRelease rid h =
     (let initialLength = length (releases h);
          remaining = filter (\<lambda>release. release_id release \<noteq> rid) (releases h)
      in if length remaining < initialLength
         then (True, h\<lparr>releases := remaining\<rparr>)
         else (False, h))"

section \<open>The durable objects together\<close>

text \<open>
  \<open>World\<close> is everything the server keeps or reaches: the plan and the release history
  of each connection id, the stage object of each stage id, the requests sent so far to
  the deployment API and to the telemetry API, and the clock. A method call on a durable
  object reads \<open>now\<close> from the clock; only \<open>step.sleep\<close> moves the clock. The calls are
  taken one after the other: two requests or a request and the workflow never
  interleave inside a method.
\<close>

datatype Phase = In_progress | Complete | Reverted

record Deployment =
  d_versions :: "(number \<times> string) list"
  d_release :: string
  d_phase :: Phase

record World =
  plan_storage :: "string \<Rightarrow> Plan option"
  release_history :: "string \<Rightarrow> ReleaseHistory"
  stage_storage :: "StageId \<Rightarrow> StageStorage"
  deployments :: "Deployment list"
  telemetry_queries :: "(timestamp \<times> timestamp) list"
  clock :: timestamp

definition on_stage ::
  "StageId \<Rightarrow> (timestamp \<Rightarrow> StageStorage \<Rightarrow> 'a \<times> StageStorage) \<Rightarrow> World \<Rightarrow> 'a \<times> World" where
  "on_stage sid method w =
     (let (r, st) = method (clock w) (stage_storage w sid)
      in (r, w\<lparr>stage_storage := (stage_storage w)(sid := st)\<rparr>))"

definition on_history ::
  "string \<Rightarrow> (timestamp \<Rightarrow> ReleaseHistory \<Rightarrow> 'a \<times> ReleaseHistory) \<Rightarrow> World \<Rightarrow> 'a \<times> World" where
  "on_history connectionId method w =
     (let (r, h) = method (clock w) (release_history w connectionId)
      in (r, w\<lparr>release_history := (release_history w)(connectionId := h)\<rparr>))"

text \<open>
  What the workflow gets from outside: the answer of the \<open>n\<close>-th telemetry query
  (\<open>None\<close> when the query fails and \<open>getWallTimes\<close> throws), whether the \<open>n\<close>-th
  deployment request succeeds, and the payload of the progress command event of a stage
  (\<open>None\<close> when no event ever arrives and \<open>waitForEvent\<close> stays suspended).
  A step that throws is not run again: the exception ends the run of the stages.
\<close>

datatype Payload = P_approve | P_deny | P_other

record Env =
  wallTimes :: "nat \<Rightarrow> ObservabilityMetrics option"
  deployment_ok :: "nat \<Rightarrow> bool"
  progress_command :: "StageId \<Rightarrow> Payload option"

datatype 'a outcome = Returned 'a | Threw | Suspended

section \<open>The release workflow (sloEvaluator.ts, class ReleaseWorkflow)\<close>

definition stage_updateStageState :: "StageId \<Rightarrow> StageState \<Rightarrow> World \<Rightarrow> World" where
  "stage_updateStageState sid newState w =
     snd (on_stage sid (\<lambda>now. updateStageState now newState None) w)"

definition history_updateReleaseState :: "string \<Rightarrow> string \<Rightarrow> ReleaseState \<Rightarrow> World \<Rightarrow> World" where
  "history_updateReleaseState connectionId releaseId state w =
     snd (on_history connectionId (\<lambda>now. updateReleaseState now releaseId state) w)"

fun updateStagesStateBad ::
  "string \<Rightarrow> PlanStage list \<Rightarrow> StageState \<Rightarrow> bool \<Rightarrow> World \<Rightarrow> World" where
  "updateStagesStateBad releaseId [] state excludeCompleted w = w"
| "updateStagesStateBad releaseId (planStage # rest) state excludeCompleted w =
     (let sid = getStageId releaseId (order planStage);
          currentStageData = StageStorage_get (stage_storage w sid);
          w = (case currentStageData of
                 None \<Rightarrow> w
               | Some d \<Rightarrow>
                   if \<not> excludeCompleted \<or> \<not> stage_done (stage_state d)
                   then stage_updateStageState sid state w
                   else w)
      in updateStagesStateBad releaseId rest state excludeCompleted w)"

definition deploy :: "Env \<Rightarrow> Deployment \<Rightarrow> World \<Rightarrow> unit outcome \<times> World" where
  "deploy env d w =
     (let n = length (deployments w);
          w = w\<lparr>deployments := deployments w @ [d]\<rparr>
      in if deployment_ok env n then (Returned (), w) else (Threw, w))"

definition setDeploymentTarget ::
  "Env \<Rightarrow> string \<Rightarrow> number \<Rightarrow> string \<Rightarrow> string \<Rightarrow> World \<Rightarrow> unit outcome \<times> World" where
  "setDeploymentTarget env releaseId target old_version_id new_version_id w =
     deploy env \<lparr>d_versions = [(target, new_version_id), (js_sub 100 target, old_version_id)],
                 d_release = releaseId, d_phase = In_progress\<rparr> w"

definition finishDeployment :: "Env \<Rightarrow> string \<Rightarrow> string \<Rightarrow> World \<Rightarrow> unit outcome \<times> World" where
  "finishDeployment env releaseId new_version_id w =
     deploy env \<lparr>d_versions = [(100, new_version_id)],
                 d_release = releaseId, d_phase = Complete\<rparr> w"

definition revertDeployment :: "Env \<Rightarrow> string \<Rightarrow> string \<Rightarrow> World \<Rightarrow> unit outcome \<times> World" where
  "revertDeployment env releaseId old_version_id w =
     deploy env \<lparr>d_versions = [(100, old_version_id)],
                 d_release = releaseId, d_phase = Reverted\<rparr> w"

definition getWallTimes ::
  "Env \<Rightarrow> timestamp \<Rightarrow> timestamp \<Rightarrow> World \<Rightarrow> ObservabilityMetrics outcome \<times> World" where
  "getWallTimes env from to w =
     (let n = length (telemetry_queries w);
          w = w\<lparr>telemetry_queries := telemetry_queries w @ [(from, to)]\<rparr>
      in case wallTimes env n of
           Some metrics \<Rightarrow> (Returned metrics, w)
         | None \<Rightarrow> (Threw, w))"

definition sleep_1_second :: "World \<Rightarrow> World" where
  "sleep_1_second w = w\<lparr>clock := clock w + 1000\<rparr>"

definition handleExternalCancellation ::
  "Env \<Rightarrow> string \<Rightarrow> string \<Rightarrow> number \<Rightarrow> World \<Rightarrow> unit outcome \<times> World" where
  "handleExternalCancellation env connectionId releaseId currentStageOrder w =
     (case getRelease releaseId (release_history w connectionId) of
        None \<Rightarrow> (Returned (), w)
      | Some release \<Rightarrow>
          (let remainingStages =
                 filter (\<lambda>s. order s \<ge> currentStageOrder) (stages (plan_record release));
               w = updateStagesStateBad releaseId remainingStages S_done_cancelled True w;
               w = history_updateReleaseState connectionId releaseId R_done_stopped_manually w
           in revertDeployment env releaseId (old_version release) w))"

definition handleSLOViolation ::
  "string \<Rightarrow> string \<Rightarrow> number \<Rightarrow> StageId \<Rightarrow> World \<Rightarrow> World" where
  "handleSLOViolation connectionId releaseId currentStageOrder currentStageId w =
     (case getRelease releaseId (release_history w connectionId) of
        None \<Rightarrow> w
      | Some release \<Rightarrow>
          (let w = stage_updateStageState currentStageId S_done_failed w;
               remainingStages =
                 filter (\<lambda>s. order s > currentStageOrder) (stages (plan_record release));
               w = updateStagesStateBad releaseId remainingStages S_done_cancelled True w
           in history_updateReleaseState connectionId releaseId R_done_failed_slo w))"

datatype SoakResult = Continue | Exit

text \<open>
  The inner loop of \<open>processStageSoak\<close>: \<open>for (let j = 0; j < intervalTimeSeconds; j++)\<close>,
  by the number of iterations left. \<open>Returned Continue\<close> is the loop running to its end.
\<close>

fun checkCancellation ::
  "Env \<Rightarrow> string \<Rightarrow> string \<Rightarrow> StageRef \<Rightarrow> nat \<Rightarrow> World \<Rightarrow> SoakResult outcome \<times> World" where
  "checkCancellation env connectionId releaseId stageRef 0 w = (Returned Continue, w)"
| "checkCancellation env connectionId releaseId stageRef (Suc j) w =
     (let release = getRelease releaseId (release_history w connectionId) in
      if (case release of None \<Rightarrow> True | Some r \<Rightarrow> release_state r \<noteq> R_running)
      then
        (case handleExternalCancellation env connectionId
                (case release of None \<Rightarrow> [] | Some r \<Rightarrow> release_id r) (ref_order stageRef) w of
           (Returned _, w) \<Rightarrow> (Returned Exit, w)
         | (Threw, w) \<Rightarrow> (Threw, w)
         | (Suspended, w) \<Rightarrow> (Suspended, w))
      else checkCancellation env connectionId releaseId stageRef j (sleep_1_second w))"

text \<open>
  The outer loop, \<open>for (let i = 0; i < Math.floor(soak_time / intervalTimeSeconds); i++)\<close>,
  by the number of rounds left. \<open>release\<close> is the value read before the loop; reading
  \<open>release!.plan_record\<close> of an absent release throws. The text of the log line (the
  violations, rendered) is shortened to its head.
\<close>

fun soakRounds ::
  "Env \<Rightarrow> string \<Rightarrow> string \<Rightarrow> Release option \<Rightarrow> StageRef \<Rightarrow> int \<Rightarrow> nat \<Rightarrow> World
     \<Rightarrow> SoakResult outcome \<times> World" where
  "soakRounds env connectionId releaseId release stageRef intervalTimeSeconds 0 w =
     (Returned Continue, w)"
| "soakRounds env connectionId releaseId release stageRef intervalTimeSeconds (Suc n) w =
     (case checkCancellation env connectionId releaseId stageRef (nat intervalTimeSeconds) w of
        (Returned Continue, w) \<Rightarrow>
          (case getWallTimes env (clock w - intervalTimeSeconds * 1000) (clock w) w of
             (Returned metrics, w) \<Rightarrow>
               (case release of
                  None \<Rightarrow> (Threw, w)
                | Some r \<Rightarrow>
                    (let sloConfigs = parseSLOsFromPlan (slos (plan_record r)) in
                     if length sloConfigs > 0
                     then
                       (let sloResult = evaluateSLOs sloConfigs metrics in
                        if \<not> passed sloResult
                        then
                          (let w = snd (on_stage (ref_id stageRef)
                                     (\<lambda>now. addLog now ''SLO violations'') w);
                               w = handleSLOViolation connectionId (release_id r)
                                     (ref_order stageRef) (ref_id stageRef) w
                           in (Returned Exit, w))
                        else soakRounds env connectionId releaseId release stageRef
                               intervalTimeSeconds n w)
                     else soakRounds env connectionId releaseId release stageRef
                            intervalTimeSeconds n w))
           | (Threw, w) \<Rightarrow> (Threw, w)
           | (Suspended, w) \<Rightarrow> (Suspended, w))
      | (Returned Exit, w) \<Rightarrow> (Returned Exit, w)
      | (Threw, w) \<Rightarrow> (Threw, w)
      | (Suspended, w) \<Rightarrow> (Suspended, w))"

text \<open>\<open>release?.plan_record?.polling_fraction || 0.5\<close>: \<open>0\<close> and the absent value give \<open>0.5\<close>.\<close>

definition pollingFraction_of :: "Release option \<Rightarrow> number" where
  "pollingFraction_of release =
     (case release of
        None \<Rightarrow> 1 / 2
      | Some r \<Rightarrow>
          if polling_fraction (plan_record r) = 0 then 1 / 2
          else polling_fraction (plan_record r))"

text \<open>
  \<open>Math.max(1, Math.floor(stagePlan.soak_time * pollingFraction))\<close> and the bound of the
  outer loop, \<open>Math.floor(stagePlan.soak_time / intervalTimeSeconds)\<close>: the floors of a
  product and of a quotient of doubles.
\<close>

definition intervalTimeSeconds_of :: "number \<Rightarrow> number \<Rightarrow> int" where
  "intervalTimeSeconds_of soak pollingFraction = max 1 \<lfloor>js_mul soak pollingFraction\<rfloor>"

definition soak_round_count :: "number \<Rightarrow> int \<Rightarrow> nat" where
  "soak_round_count soak intervalTimeSeconds =
     nat \<lfloor>js_div soak (of_int intervalTimeSeconds)\<rfloor>"

definition processStageSoak ::
  "Env \<Rightarrow> string \<Rightarrow> string \<Rightarrow> StageRef \<Rightarrow> PlanStage \<Rightarrow> World \<Rightarrow> SoakResult outcome \<times> World" where
  "processStageSoak env connectionId releaseId stageRef stagePlan w =
     (let release = getRelease releaseId (release_history w connectionId);
          pollingFraction = pollingFraction_of release;
          intervalTimeSeconds = intervalTimeSeconds_of (soak_time stagePlan) pollingFraction
      in soakRounds env connectionId releaseId release stageRef intervalTimeSeconds
           (soak_round_count (soak_time stagePlan) intervalTimeSeconds) w)"

text \<open>\<open>Math.max(...orders)\<close>; \<open>None\<close> stands for the \<open>-Infinity\<close> of the empty list.\<close>

definition maxOrder :: "PlanStage list \<Rightarrow> number option" where
  "maxOrder ss = (case map order ss of [] \<Rightarrow> None | x # xs \<Rightarrow> Some (fold max xs x))"

definition updateRemainingStages :: "string \<Rightarrow> Release \<Rightarrow> StageState \<Rightarrow> number \<Rightarrow> World \<Rightarrow> World" where
  "updateRemainingStages releaseId release failureState currentStageOrder w =
     (let remainingStages =
            filter (\<lambda>s. order s > currentStageOrder) (stages (plan_record release))
      in updateStagesStateBad releaseId remainingStages failureState True w)"

text \<open>
  The command event is sent by the request handler of the stage, outside the workflow;
  here only its payload is seen.
\<close>

definition handleStageApproval ::
  "Env \<Rightarrow> string \<Rightarrow> string \<Rightarrow> StageRef \<Rightarrow> PlanStage \<Rightarrow> Release \<Rightarrow> World
     \<Rightarrow> SoakResult outcome \<times> World" where
  "handleStageApproval env connectionId releaseId stageRef stagePlan release w =
     (let isLastStage = (maxOrder (stages (plan_record release)) = Some (ref_order stageRef)) in
      if \<not> auto_progress stagePlan \<and> \<not> isLastStage
      then
        (let w = stage_updateStageState (ref_id stageRef) S_awaiting_approval w;
             currentRelease = getRelease releaseId (release_history w connectionId)
         in if (case currentRelease of None \<Rightarrow> True | Some r \<Rightarrow> release_state r \<noteq> R_running)
            then
              (case handleExternalCancellation env connectionId releaseId (ref_order stageRef) w of
                 (Returned _, w) \<Rightarrow> (Returned Exit, w)
               | (Threw, w) \<Rightarrow> (Threw, w)
               | (Suspended, w) \<Rightarrow> (Suspended, w))
            else
              (case progress_command env (ref_id stageRef) of
                 None \<Rightarrow> (Suspended, w)
               | Some P_approve \<Rightarrow> (Returned Continue, w)
               | Some P_deny \<Rightarrow>
                   (let w = stage_updateStageState (ref_id stageRef) S_done_cancelled w;
                        w = updateRemainingStages releaseId release S_done_cancelled
                              (ref_order stageRef) w;
                        w = history_updateReleaseState connectionId releaseId
                              R_done_stopped_manually w
                    in case revertDeployment env releaseId (old_version release) w of
                         (Returned _, w) \<Rightarrow> (Returned Exit, w)
                       | (Threw, w) \<Rightarrow> (Threw, w)
                       | (Suspended, w) \<Rightarrow> (Suspended, w))
               | Some P_other \<Rightarrow> (Returned Continue, w)))
      else (Returned Continue, w))"

text \<open>
  \<open>processStages\<close>: the loop \<open>for (const stageRef of release.stages)\<close>. \<open>release\<close> is
  the value \<open>run\<close> read when the workflow started.
\<close>

fun processStagesLoop ::
  "Env \<Rightarrow> string \<Rightarrow> string \<Rightarrow> Release \<Rightarrow> StageRef list \<Rightarrow> World \<Rightarrow> unit outcome \<times> World" where
  "processStagesLoop env connectionId releaseId release [] w = (Returned (), w)"
| "processStagesLoop env connectionId releaseId release (stageRef # rest) w =
     (case find (\<lambda>s. order s = ref_order stageRef) (stages (plan_record release)) of
        None \<Rightarrow> processStagesLoop env connectionId releaseId release rest w
      | Some stagePlan \<Rightarrow>
          (let w = stage_updateStageState (ref_id stageRef) S_running w in
           case setDeploymentTarget env releaseId (target_percent stagePlan)
                  (old_version release) (new_version release) w of
             (Returned _, w) \<Rightarrow>
               (case processStageSoak env connectionId releaseId stageRef stagePlan w of
                  (Returned Exit, w) \<Rightarrow> (Returned (), w)
                | (Returned Continue, w) \<Rightarrow>
                    (case handleStageApproval env connectionId releaseId stageRef stagePlan
                            release w of
                       (Returned Exit, w) \<Rightarrow> (Returned (), w)
                     | (Returned Continue, w) \<Rightarrow>
                         processStagesLoop env connectionId releaseId release rest
                           (stage_updateStageState (ref_id stageRef) S_done_successful w)
                     | (Threw, w) \<Rightarrow> (Threw, w)
                     | (Suspended, w) \<Rightarrow> (Suspended, w))
                | (Threw, w) \<Rightarrow> (Threw, w)
                | (Suspended, w) \<Rightarrow> (Suspended, w))
           | (Threw, w) \<Rightarrow> (Threw, w)
           | (Suspended, w) \<Rightarrow> (Suspended, w)))"

definition processStages ::
  "Env \<Rightarrow> string \<Rightarrow> string \<Rightarrow> Release \<Rightarrow> World \<Rightarrow> unit outcome \<times> World" where
  "processStages env connectionId releaseId release w =
     processStagesLoop env connectionId releaseId release (release_stages release) w"

section \<open>The request handlers (the routes under \<open>/api\<close>)\<close>

text \<open>
  A response is the value sent with status 200, or a status and a message. The handlers'
  \<open>catch\<close> (status 500) has nothing to catch here: no call of a durable object throws.
\<close>

datatype 'a response = Ok_200 'a | Failed nat string





text \<open>\<open>DELETE /api/release/active\<close>.\<close>

definition delete_release_active :: "string \<Rightarrow> World \<Rightarrow> string response \<times> World" where
  "delete_release_active connectionId w =
     (if connectionId = []
      then (Failed 400 ''Missing required field: connectionId is required'', w)
      else
        (case getActiveRelease (release_history w connectionId) of
           None \<Rightarrow> (Failed 404 ''No active release found'', w)
         | Some activeRelease \<Rightarrow>
             if release_state activeRelease \<noteq> R_not_started
             then (Failed 409 ''Release has to be in a not_started state'', w)
             else
               (case on_history connectionId (\<lambda>now. removeRelease (release_id activeRelease)) w of
                  (deleted, w) \<Rightarrow>
                    if \<not> deleted then (Failed 404 ''Release not found'', w)
                    else (Ok_200 ''Release deleted'', w))))"

section \<open>The plan editor of the UI (component \<open>PlanEditor\<close>)\<close>



section \<open>Notions used in the statements\<close>

text \<open>The smallest positive normal double, \<open>2^(-1022)\<close>.\<close>

definition min_normal :: rat where
  "min_normal = 2 powi (- 1022)"

definition violated :: "ObservabilityMetrics \<Rightarrow> SLOConfig \<Rightarrow> bool" where
  "violated metrics slo \<longleftrightarrow> getMetricValue metrics (percentile slo) > latency_ms slo"

definition violation_of :: "ObservabilityMetrics \<Rightarrow> SLOConfig \<Rightarrow> SLOViolation" where
  "violation_of metrics slo =
     \<lparr>v_percentile = percentile slo,
      expected_max_ms = latency_ms slo,
      actual_ms = getMetricValue metrics (percentile slo),
      violation_margin_ms = js_sub (getMetricValue metrics (percentile slo)) (latency_ms slo)\<rparr>"

definition settled :: "World \<Rightarrow> StageId \<Rightarrow> bool" where
  "settled w sid \<longleftrightarrow>
     (case main (stage_storage w sid) of None \<Rightarrow> True | Some d \<Rightarrow> stage_done (stage_state d))"

definition violation_handled ::
  "string \<Rightarrow> string \<Rightarrow> Release \<Rightarrow> StageRef \<Rightarrow> (StageId \<Rightarrow> StageStorage) \<Rightarrow> World \<Rightarrow> bool" where
  "violation_handled c rid r sr before w' \<longleftrightarrow>
     (\<exists>d'. main (stage_storage w' (ref_id sr)) = Some d' \<and> stage_state d' = S_done_failed)
   \<and> (\<forall>s \<in> set (stages (plan_record r)). order s > ref_order sr \<longrightarrow>
         (\<forall>d0. main (before (getStageId rid (order s))) = Some d0 \<longrightarrow>
            (\<exists>d1. main (stage_storage w' (getStageId rid (order s))) = Some d1
                 \<and> stage_state d1 =
                     (if stage_done (stage_state d0) then stage_state d0 else S_done_cancelled))))
   \<and> (\<exists>r'. getRelease rid (release_history w' c) = Some r'
          \<and> release_state r' = R_done_failed_slo)"


section \<open>A concrete release\<close>


definition scenario_plan :: Plan where
  "scenario_plan =
     \<lparr>stages =
        [\<lparr>order = 1, description = [], target_percent = 10, soak_time = 60, auto_progress = False\<rparr>,
         \<lparr>order = 2, description = [], target_percent = 100, soak_time = 60, auto_progress = True\<rparr>],
      slos = [\<lparr>raw_percentile = ''p99'', raw_latency_ms = Some 100\<rparr>],
      worker_name = ''my-worker'',
      polling_fraction = 1 / 2,
      time_last_saved = None\<rparr>"

definition scenario_release :: Release where
  "scenario_release =
     \<lparr>release_id = ''ab12cd34'', release_state = R_running, plan_record = scenario_plan,
      old_version = ''v1'', new_version = ''v2'',
      release_stages = [\<lparr>ref_id = StageId ''ab12cd34'' 1, ref_order = 1\<rparr>,
                        \<lparr>ref_id = StageId ''ab12cd34'' 2, ref_order = 2\<rparr>],
      time_created = 0, release_time_started = Some 0,
      release_time_elapsed = 0, release_time_done = None\<rparr>"

definition scenario_stage :: "number \<Rightarrow> StageState \<Rightarrow> Stage" where
  "scenario_stage n s =
     \<lparr>stage_id = StageId ''ab12cd34'' n, stage_order = n, stage_releaseId = ''ab12cd34'',
      stage_state = s, stage_time_started = (if s = S_queued then None else Some 0),
      stage_time_elapsed = 0, stage_time_done = None, stage_logs = []\<rparr>"

definition scenario_world :: World where
  "scenario_world =
     \<lparr>plan_storage = (\<lambda>_. None)(''conn'' := Some scenario_plan),
      release_history = (\<lambda>_. \<lparr>releases = [], history_alarm = None\<rparr>)
        (''conn'' := \<lparr>releases = [scenario_release], history_alarm = Some 1000\<rparr>),
      stage_storage = (\<lambda>_. \<lparr>main = None, alarm = None\<rparr>)
        (StageId ''ab12cd34'' 1 := \<lparr>main = Some (scenario_stage 1 S_running), alarm = Some 1000\<rparr>,
         StageId ''ab12cd34'' 2 := \<lparr>main = Some (scenario_stage 2 S_queued), alarm = None\<rparr>),
      deployments = [], telemetry_queries = [], clock = 0\<rparr>"

definition scenario_env :: "number \<Rightarrow> Env" where
  "scenario_env observed_p99 =
     \<lparr>wallTimes = (\<lambda>_. Some \<lparr>p999 = 200, p99 = observed_p99, p90 = 50, median = 10\<rparr>),
      deployment_ok = (\<lambda>_. True),
      progress_command = (\<lambda>_. None)\<rparr>"

text \<open>
  The same release with a polling fraction of 0.3, which is the double
  \<open>5404319552844595 / 2^54\<close>.
\<close>

definition fraction_release :: Release where
  "fraction_release =
     scenario_release\<lparr>plan_record := scenario_plan
       \<lparr>polling_fraction := 5404319552844595 / 18014398509481984\<rparr>\<rparr>"

definition fraction_world :: World where
  "fraction_world =
     scenario_world\<lparr>release_history := (release_history scenario_world)
       (''conn'' := \<lparr>releases = [fraction_release], history_alarm = Some 1000\<rparr>)\<rparr>"

definition done_world :: World where
  "done_world =
     scenario_world\<lparr>stage_storage := (stage_storage scenario_world)
       (StageId ''ab12cd34'' 1 :=
          \<lparr>main = Some (scenario_stage 1 S_done_successful), alarm = None\<rparr>)\<rparr>"


definition queued_world :: World where
  "queued_world =
     scenario_world\<lparr>stage_storage := (stage_storage scenario_world)
       (StageId ''ab12cd34'' 1 := \<lparr>main = Some (scenario_stage 1 S_queued), alarm = None\<rparr>)\<rparr>"

definition started_world :: World where
  "started_world =
     snd (setDeploymentTarget (scenario_env 150) ''ab12cd34'' 10 ''v1'' ''v2''
            (stage_updateStageState (StageId ''ab12cd34'' 1) S_running queued_world))"

definition staged_world :: World where
  "staged_world =
     scenario_world\<lparr>release_history := (release_history scenario_world)
       (''conn'' := \<lparr>releases = [scenario_release\<lparr>release_state := R_not_started\<rparr>],
                     history_alarm = None\<rparr>)\<rparr>"

section \<open>Auxiliary facts\<close>

subsection \<open>Rounding to a double\<close>

lemma binade_bounds:
  assumes "x \<noteq> 0"
  shows "2 powi binade x \<le> \<bar>x\<bar>" and "\<bar>x\<bar> < 2 powi (binade x + 1)"
proof -
  obtain p q where pq: "quotient_of \<bar>x\<bar> = (p, q)" by (cases "quotient_of \<bar>x\<bar>")
  have qpos: "0 < q" using quotient_of_denom_pos[OF pq] .
  have xe: "\<bar>x\<bar> = of_int p / of_int q" using quotient_of_div[OF pq] .
  have xpos: "0 < \<bar>x\<bar>" using assms by simp
  have ppos: "0 < p" using xpos qpos xe by (simp add: zero_less_divide_iff)
  let ?a = "bitlen p" and ?b = "bitlen q"
  from bitlen_bounds[OF ppos] have p1: "2 ^ nat (?a - 1) \<le> p" and p2: "p < 2 ^ nat ?a" by simp_all
  from bitlen_bounds[OF qpos] have q1: "2 ^ nat (?b - 1) \<le> q" and q2: "q < 2 ^ nat ?b" by simp_all
  have apos: "1 \<le> ?a" using p2 ppos by (cases "nat ?a") auto
  have bpos: "1 \<le> ?b" using q2 qpos by (cases "nat ?b") auto
  have P1: "(2::rat) powi (?a - 1) \<le> of_int p"
  proof -
    have "(2::rat) powi (?a - 1) = of_int (2 ^ nat (?a - 1))"
      using apos by (simp add: power_int_def)
    then show ?thesis using p1 by (simp only: of_int_le_iff)
  qed
  have P2: "of_int p < (2::rat) powi ?a"
  proof -
    have "(2::rat) powi ?a = of_int (2 ^ nat ?a)"
      using apos by (simp add: power_int_def)
    then show ?thesis using p2 by (simp only: of_int_less_iff)
  qed
  have Q1: "(2::rat) powi (?b - 1) \<le> of_int q"
  proof -
    have "(2::rat) powi (?b - 1) = of_int (2 ^ nat (?b - 1))"
      using bpos by (simp add: power_int_def)
    then show ?thesis using q1 by (simp only: of_int_le_iff)
  qed
  have Q2: "of_int q < (2::rat) powi ?b"
  proof -
    have "(2::rat) powi ?b = of_int (2 ^ nat ?b)"
      using bpos by (simp add: power_int_def)
    then show ?thesis using q2 by (simp only: of_int_less_iff)
  qed
  have qr: "(0::rat) < of_int q" using qpos by simp
  have pr: "(0::rat) < of_int p" using ppos by simp
  have lo: "(2::rat) powi (?a - ?b - 1) \<le> \<bar>x\<bar>"
  proof -
    have "(2::rat) powi (?a - ?b - 1) = 2 powi (?a - 1) / 2 powi ?b"
      using power_int_diff[of "2::rat" "?a - 1" ?b] by (simp add: algebra_simps)
    also have "\<dots> \<le> of_int p / 2 powi ?b"
      using P1 by (simp add: divide_right_mono)
    also have "\<dots> \<le> of_int p / of_int q"
      using Q2 pr qr by (simp add: frac_le)
    finally show ?thesis by (simp add: xe)
  qed
  have hi: "\<bar>x\<bar> < (2::rat) powi (?a - ?b + 1)"
  proof -
    have b1: "(0::rat) < 2 powi (?b - 1)" by simp
    have "\<bar>x\<bar> = of_int p / of_int q" by (rule xe)
    also have "\<dots> \<le> of_int p / 2 powi (?b - 1)"
      using Q1 pr b1 by (simp add: frac_le)
    also have "\<dots> < 2 powi ?a / 2 powi (?b - 1)"
      using P2 b1 by (simp add: divide_strict_right_mono)
    also have "\<dots> = 2 powi (?a - ?b + 1)"
      using power_int_diff[of "2::rat" "?a" "?b - 1"] by (simp add: algebra_simps)
    finally show ?thesis .
  qed
  show "2 powi binade x \<le> \<bar>x\<bar>"
    using lo by (simp add: binade_def pq Let_def)
  show "\<bar>x\<bar> < 2 powi (binade x + 1)"
    using hi by (auto simp add: binade_def pq Let_def not_le)
qed

lemma pow2_less_imp: "(2::rat) powi a < 2 powi b \<Longrightarrow> a < b"
  using power_int_increasing[of b a "2::rat"] by (cases "a < b") simp_all

lemma pow2_le_imp: "(2::rat) powi a \<le> 2 powi b \<Longrightarrow> a \<le> b"
  using power_int_strict_increasing[of b a "2::rat"] by (cases "a \<le> b") simp_all

lemma round_half_even_err: "\<bar>of_int (round_half_even y) - y\<bar> \<le> 1 / 2"
proof -
  have a: "of_int \<lfloor>y\<rfloor> \<le> y" "y < of_int \<lfloor>y\<rfloor> + 1" by linarith+
  show ?thesis unfolding round_half_even_def Let_def using a by (auto simp: abs_le_iff)
qed

lemma round_half_even_of_int: "round_half_even (of_int n) = n"
  by (simp add: round_half_even_def)

lemma round_half_even_nonneg: "0 \<le> y \<Longrightarrow> 0 \<le> round_half_even y"
  by (simp add: round_half_even_def Let_def)

lemma round_double_err:
  assumes "x \<noteq> 0"
  shows "\<bar>round_double x - x\<bar> \<le> 2 powi (max (binade x) (- 1022) - 53)"
proof -
  let ?m = "max (binade x) (- 1022)"
  let ?u = "(2::rat) powi (?m - 52)"
  have up: "0 < ?u" by simp
  have rd: "round_double x = of_int (round_half_even (x / ?u)) * ?u"
    using assms by (simp add: round_double_def Let_def)
  have "round_double x - x = (of_int (round_half_even (x / ?u)) - x / ?u) * ?u"
    unfolding rd using up by (simp add: algebra_simps)
  then have "\<bar>round_double x - x\<bar> = \<bar>of_int (round_half_even (x / ?u)) - x / ?u\<bar> * ?u"
    using up by (simp add: abs_mult)
  also have "\<dots> \<le> (1 / 2) * ?u"
    using round_half_even_err[of "x / ?u"] up by (intro mult_right_mono) simp_all
  also have "\<dots> = 2 powi (?m - 53)"
    using power_int_diff[of "2::rat" "?m - 52" 1] by simp
  finally show ?thesis .
qed

lemma round_double_nonneg: "0 \<le> x \<Longrightarrow> 0 \<le> round_double x"
  by (simp add: round_double_def Let_def round_half_even_nonneg)

lemma round_double_rel:
  assumes "min_normal \<le> \<bar>x\<bar>"
  shows "\<bar>round_double x - x\<bar> \<le> \<bar>x\<bar> / 2 ^ 53"
proof -
  have mp: "0 < min_normal" by (simp only: min_normal_def zero_less_power_int zero_less_numeral)
  have x0: "x \<noteq> 0" using assms mp by auto
  have "2 powi (- 1022) < (2::rat) powi (binade x + 1)"
    using assms binade_bounds(2)[OF x0] unfolding min_normal_def by linarith
  then have b: "- 1022 \<le> binade x" using pow2_less_imp[of "- 1022" "binade x + 1"] by simp
  then have m: "max (binade x) (- 1022) = binade x" by simp
  have "\<bar>round_double x - x\<bar> \<le> 2 powi (binade x - 53)"
    using round_double_err[OF x0] by (simp only: m)
  also have "\<dots> = 2 powi binade x / 2 ^ 53"
    using power_int_diff[of "2::rat" "binade x" 53] by simp
  also have "\<dots> \<le> \<bar>x\<bar> / 2 ^ 53"
    using binade_bounds(1)[OF x0] by (simp add: divide_right_mono)
  finally show ?thesis .
qed

lemma round_double_of_int:
  assumes "\<bar>n\<bar> \<le> 2 ^ 53"
  shows "round_double (of_int n) = of_int n"
proof (cases "n = 0")
  case True
  then show ?thesis by (simp add: round_double_def)
next
  case False
  let ?x = "of_int n :: rat"
  let ?b = "binade ?x"
  have x0: "?x \<noteq> 0" using False by simp
  have ax: "\<bar>?x\<bar> = of_int \<bar>n\<bar>" by simp
  have ge1: "(1::rat) \<le> \<bar>?x\<bar>" unfolding ax using False by (simp add: of_int_abs[symmetric] del: of_int_abs)
  have le53: "\<bar>?x\<bar> \<le> 2 powi 53"
  proof -
    have "(of_int \<bar>n\<bar> :: rat) \<le> of_int (2 ^ 53)" using assms by (simp only: of_int_le_iff)
    then show ?thesis unfolding ax by simp
  qed
  have "(2::rat) powi 0 < 2 powi (?b + 1)" using ge1 binade_bounds(2)[OF x0] by simp
  then have b0: "0 \<le> ?b" using pow2_less_imp[of 0 "?b + 1"] by simp
  have "(2::rat) powi ?b \<le> 2 powi 53" using le53 binade_bounds(1)[OF x0] by linarith
  then have b53: "?b \<le> 53" by (rule pow2_le_imp)
  have m: "max ?b (- 1022) = ?b" using b0 by simp
  have rd: "round_double ?x = of_int (round_half_even (?x / 2 powi (?b - 52))) * 2 powi (?b - 52)"
    using x0 by (simp add: round_double_def Let_def m)
  show ?thesis
  proof (cases "?b \<le> 52")
    case True
    let ?k = "nat (52 - ?b)"
    have u: "(2::rat) powi (?b - 52) = 1 / 2 ^ ?k"
      using True power_int_minus_divide[of "2::rat" "52 - ?b"] by (simp add: power_int_def)
    have "?x / 2 powi (?b - 52) = of_int (n * 2 ^ ?k)" unfolding u by simp
    then have "round_half_even (?x / 2 powi (?b - 52)) = n * 2 ^ ?k"
      by (simp only: round_half_even_of_int)
    then show ?thesis unfolding rd unfolding u by simp
  next
    case False
    then have b: "?b = 53" using b53 by simp
    have "(2::rat) powi 53 \<le> \<bar>?x\<bar>" using binade_bounds(1)[OF x0] by (simp only: b)
    then have "(of_int (2 ^ 53) :: rat) \<le> of_int \<bar>n\<bar>" unfolding ax by simp
    then have "2 ^ 53 \<le> \<bar>n\<bar>" by (simp only: of_int_le_iff)
    then have n: "\<bar>n\<bar> = 2 ^ 53" using assms by simp
    then have "n = 2 ^ 53 \<or> n = - (2 ^ 53)" by (simp add: abs_if split: if_splits)
    then have ev: "n = 2 * (n div 2)" by (elim disjE) simp_all
    have "?x / 2 powi (?b - 52) = of_int (n div 2)"
      unfolding b using ev by (simp add: field_simps)
    then have "round_half_even (?x / 2 powi (?b - 52)) = n div 2"
      by (simp only: round_half_even_of_int)
    then show ?thesis unfolding rd unfolding b using ev
      by simp
  qed
qed

lemma round_double_0: "round_double 0 = 0"
  by (simp add: round_double_def)

lemma round_double_small:
  assumes "0 < x" and "x < min_normal"
  shows "round_double x < 1"
proof -
  have x0: "x \<noteq> 0" using assms by simp
  have "(2::rat) powi binade x < 2 powi (- 1022)"
    using binade_bounds(1)[OF x0] assms unfolding min_normal_def by linarith
  then have "binade x < - 1022" by (rule pow2_less_imp)
  then have m: "max (binade x) (- 1022) - 53 = - 1075" by simp
  have e: "\<bar>round_double x - x\<bar> \<le> 2 powi (- 1075)"
    using round_double_err[OF x0] by (simp only: m)
  have a: "(2::rat) powi (- 1022) \<le> 2 powi (- 2)"
    by (rule power_int_increasing) simp_all
  have b: "(2::rat) powi (- 1075) \<le> 2 powi (- 2)"
    by (rule power_int_increasing) simp_all
  have c: "(2::rat) powi (- 2) = 1 / 4" by (simp add: power_int_minus_divide)
  from e have "round_double x \<le> x + 2 powi (- 1075)" unfolding abs_le_iff by linarith
  with assms(2) a b c show ?thesis unfolding min_normal_def by linarith
qed

lemma js_div_floor:
  assumes dbl: "round_double x = x" and x0: "0 \<le> x" and x53: "x < 2 ^ 53" and i1: "1 \<le> i"
  shows "\<lfloor>js_div x (of_int i)\<rfloor> = \<lfloor>x / of_int i\<rfloor>"
proof (cases "x = 0")
  case True
  then show ?thesis by (simp add: js_div_def round_double_0)
next
  case False
  then have xpos: "0 < x" using x0 by simp
  define q where "q = x / of_int i"
  define k where "k = \<lfloor>q\<rfloor>"
  let ?m = "max (binade x) (- 1022)"
  let ?u = "(2::rat) powi (?m - 52)"
  have ir: "(0::rat) < of_int i" using i1 by simp
  have xq: "x = q * of_int i" using ir by (simp add: q_def)
  have q0: "0 \<le> q" using ir x0 by (simp add: q_def)
  have qpos: "0 < q" using ir xpos by (simp add: q_def)
  have kq1: "of_int k \<le> q" unfolding k_def by (rule of_int_floor_le)
  have kq2: "q < of_int k + 1" unfolding k_def by linarith
  have k0: "0 \<le> k" using q0 by (simp add: k_def)
  have k0r: "(0::rat) \<le> of_int k" using k0 by (simp only: of_int_0_le_iff)
  have up: "0 < ?u" by simp
  have ax: "\<bar>x\<bar> = x" using x0 by simp
  obtain n where n: "x = of_int n * ?u"
  proof
    show "x = of_int (round_half_even (x / ?u)) * ?u"
      using dbl False by (simp add: round_double_def Let_def)
  qed
  have "(2::rat) powi binade x < 2 powi 53"
    using binade_bounds(1)[OF False] x53 unfolding ax by simp
  then have b53: "binade x < 53" by (rule pow2_less_imp)
  then have m52: "?m \<le> 52" by simp
  define c :: int where "c = 2 ^ nat (52 - ?m)"
  have cu: "of_int c * ?u = 1"
  proof -
    have "(2::rat) powi (52 - ?m) = of_int c"
      using m52 by (simp add: c_def power_int_def)
    moreover have "(2::rat) powi (52 - ?m) * ?u = 2 powi 0"
      by (subst power_int_add[symmetric]) simp_all
    ultimately show ?thesis by simp
  qed
  have int_mult: "of_int j = of_int (j * c) * ?u" for j :: int
  proof -
    have "of_int (j * c) * ?u = of_int j * (of_int c * ?u)" by (simp add: algebra_simps)
    then show ?thesis by (simp only: cu mult_1_right)
  qed
  have xu: "x / 2 ^ 53 < ?u"
  proof -
    have "x < 2 powi (binade x + 1)" using binade_bounds(2)[OF False] unfolding ax .
    also have "\<dots> \<le> 2 powi (?m + 1)" by (rule power_int_increasing) simp_all
    finally have "x / 2 ^ 53 < 2 powi (?m + 1) / 2 ^ 53" by (simp add: divide_strict_right_mono)
    also have "\<dots> = ?u" using power_int_diff[of "2::rat" "?m + 1" 53] by simp
    finally show ?thesis .
  qed
  have qu: "q / 2 ^ 53 < ?u / of_int i"
  proof -
    have "q / 2 ^ 53 = (x / 2 ^ 53) / of_int i" by (simp add: q_def)
    also have "\<dots> < ?u / of_int i" using xu ir by (rule divide_strict_right_mono)
    finally show ?thesis .
  qed
  have kle: "of_int k * of_int i \<le> x"
    unfolding xq using kq1 ir by (rule mult_right_mono[OF _ less_imp_le])
  have klt: "x < (of_int k + 1) * of_int i"
    unfolding xq using kq2 ir by (rule mult_strict_right_mono)
  have upper: "round_double q < of_int k + 1"
  proof (cases "q < min_normal")
    case True
    from round_double_small[OF qpos True] k0r show ?thesis by linarith
  next
    case False
    then have nn: "min_normal \<le> \<bar>q\<bar>" using q0 by linarith
    have gap: "x + ?u \<le> (of_int k + 1) * of_int i"
    proof -
      define z where "z = (k + 1) * i * c - n"
      have e: "(of_int k + 1) * of_int i - x = of_int z * ?u"
        using int_mult[of "(k + 1) * i"] n by (simp add: z_def algebra_simps)
      have "0 < (of_int k + 1) * of_int i - x" using klt by simp
      then have "0 < (of_int z :: rat) * ?u" by (simp only: e)
      then have "(0::rat) < of_int z" using up by (simp only: zero_less_mult_iff) linarith
      then have "0 < z" by (simp only: of_int_0_less_iff)
      then have "1 \<le> z" by linarith
      then have "(1::rat) \<le> of_int z" by (simp only: of_int_1_le_iff)
      then have "1 * ?u \<le> of_int z * ?u"
        using up by (intro mult_right_mono) simp_all
      then have "?u \<le> (of_int k + 1) * of_int i - x" by (simp only: e mult_1)
      then show ?thesis by linarith
    qed
    have "q + ?u / of_int i = (x + ?u) / of_int i" by (simp add: q_def add_divide_distrib)
    also have "\<dots> \<le> of_int k + 1"
      using gap pos_divide_le_eq[OF ir, of "x + ?u" "of_int k + 1"] by blast
    finally have g: "q + ?u / of_int i \<le> of_int k + 1" .
    have "\<bar>round_double q - q\<bar> \<le> q / 2 ^ 53"
      using round_double_rel[OF nn] by (simp only: abs_of_nonneg[OF q0])
    then have "round_double q \<le> q + q / 2 ^ 53"
      unfolding abs_le_iff by linarith
    with qu g show ?thesis by linarith
  qed
  have lower: "of_int k \<le> round_double q"
  proof (cases "k = 0")
    case True
    then show ?thesis using round_double_nonneg[OF q0] by simp
  next
    case False
    then have k1: "1 \<le> k" using k0 by linarith
    then have k1r: "(1::rat) \<le> of_int k" by (simp only: of_int_1_le_iff)
    show ?thesis
    proof (cases "q = of_int k")
      case True
      have "q \<le> x" unfolding xq using q0 i1 by (simp add: mult_le_cancel_left1)
      then have "of_int k < (of_int (2 ^ 53) :: rat)" using True x53 by simp
      then have "k < 2 ^ 53" by (simp only: of_int_less_iff)
      then have "\<bar>k\<bar> \<le> 2 ^ 53" using k0 by simp
      then show ?thesis by (simp only: True round_double_of_int order_refl)
    next
      case False
      then have ne: "x \<noteq> of_int k * of_int i" using ir by (simp add: xq)
      have gap: "of_int k * of_int i \<le> x - ?u"
      proof -
        define z where "z = n - k * i * c"
        have e: "x - of_int k * of_int i = of_int z * ?u"
          using int_mult[of "k * i"] n by (simp add: z_def algebra_simps)
        have "0 < x - of_int k * of_int i" using kle ne by linarith
        then have "0 < (of_int z :: rat) * ?u" by (simp only: e)
        then have "(0::rat) < of_int z" using up by (simp only: zero_less_mult_iff) linarith
        then have "0 < z" by (simp only: of_int_0_less_iff)
        then have "1 \<le> z" by linarith
        then have "(1::rat) \<le> of_int z" by (simp only: of_int_1_le_iff)
        then have "1 * ?u \<le> of_int z * ?u"
          using up by (intro mult_right_mono) simp_all
        then have "?u \<le> x - of_int k * of_int i" by (simp only: e mult_1)
        then show ?thesis by linarith
      qed
      have q1: "1 \<le> q" using k1r kq1 by linarith
      have "(2::rat) powi (- 1022) \<le> 2 powi 0" by (rule power_int_increasing) simp_all
      then have nn: "min_normal \<le> \<bar>q\<bar>" using q1 unfolding min_normal_def by simp
      have "of_int k \<le> (x - ?u) / of_int i"
        using gap pos_le_divide_eq[OF ir, of "of_int k" "x - ?u"] by blast
      also have "\<dots> = q - ?u / of_int i" by (simp add: q_def diff_divide_distrib)
      finally have g: "of_int k \<le> q - ?u / of_int i" .
      have "\<bar>round_double q - q\<bar> \<le> q / 2 ^ 53"
        using round_double_rel[OF nn] by (simp only: abs_of_nonneg[OF q0])
      then have "q - q / 2 ^ 53 \<le> round_double q" unfolding abs_le_iff by linarith
      with qu g show ?thesis by linarith
    qed
  qed
  from lower upper have "\<lfloor>round_double q\<rfloor> = k" by (intro floor_unique) simp_all
  then show ?thesis unfolding js_div_def q_def k_def .
qed

lemma round_half_even_ge: "of_int N \<le> y \<Longrightarrow> N \<le> round_half_even y"
proof -
  assume "of_int N \<le> y"
  then have "N \<le> \<lfloor>y\<rfloor>" by (simp add: le_floor_iff)
  then show ?thesis by (simp add: round_half_even_def Let_def)
qed

lemma round_half_even_le: "y \<le> of_int N \<Longrightarrow> round_half_even y \<le> N"
proof -
  assume a: "y \<le> of_int N"
  then have f: "\<lfloor>y\<rfloor> \<le> N" by (simp add: floor_le_iff)
  show ?thesis
  proof (cases "\<lfloor>y\<rfloor> = N")
    case True
    have "of_int \<lfloor>y\<rfloor> \<le> y" by (rule of_int_floor_le)
    then have "y = of_int N" using a True by simp
    then show ?thesis by (simp only: round_half_even_of_int order_refl)
  next
    case False
    then have "\<lfloor>y\<rfloor> + 1 \<le> N" using f by linarith
    then show ?thesis by (simp add: round_half_even_def Let_def)
  qed
qed

lemma round_double_int_bounds:
  assumes x0: "0 \<le> x" and x53: "x < 2 ^ 53"
  shows "of_int \<lfloor>x\<rfloor> \<le> round_double x" and "round_double x \<le> of_int \<lfloor>x\<rfloor> + 1"
proof -
  define k where "k = \<lfloor>x\<rfloor>"
  have k1: "of_int k \<le> x" unfolding k_def by (rule of_int_floor_le)
  have k2: "x \<le> of_int (k + 1)" unfolding k_def by simp linarith
  have "of_int k \<le> round_double x \<and> round_double x \<le> of_int (k + 1)"
  proof (cases "x = 0")
    case True
    then have "k = 0" by (simp add: k_def)
    then show ?thesis using True by (simp add: round_double_0)
  next
    case False
    let ?m = "max (binade x) (- 1022)"
    let ?u = "(2::rat) powi (?m - 52)"
    have up: "0 < ?u" by simp
    have ax: "\<bar>x\<bar> = x" using x0 by simp
    have rd: "round_double x = of_int (round_half_even (x / ?u)) * ?u"
      using False by (simp add: round_double_def Let_def)
    have "(2::rat) powi binade x < 2 powi 53"
      using binade_bounds(1)[OF False] x53 unfolding ax by simp
    then have "binade x < 53" by (rule pow2_less_imp)
    then have m52: "?m \<le> 52" by simp
    define c :: int where "c = 2 ^ nat (52 - ?m)"
    have cu: "of_int c * ?u = 1"
    proof -
      have "(2::rat) powi (52 - ?m) = of_int c"
        using m52 by (simp add: c_def power_int_def)
      moreover have "(2::rat) powi (52 - ?m) * ?u = 2 powi 0"
        by (subst power_int_add[symmetric]) simp_all
      ultimately show ?thesis by simp
    qed
    have int_mult: "of_int j = of_int (j * c) * ?u" for j :: int
    proof -
      have "of_int (j * c) * ?u = of_int j * (of_int c * ?u)" by (simp add: algebra_simps)
      then show ?thesis by (simp only: cu mult_1_right)
    qed
    have "of_int (k * c) * ?u \<le> x" using k1 by (simp only: int_mult[of k, symmetric])
    then have "of_int (k * c) \<le> x / ?u"
      using pos_le_divide_eq[OF up, of "of_int (k * c)" x] by blast
    then have "k * c \<le> round_half_even (x / ?u)" by (rule round_half_even_ge)
    then have "(of_int (k * c) :: rat) \<le> of_int (round_half_even (x / ?u))"
      by (simp only: of_int_le_iff)
    then have "of_int (k * c) * ?u \<le> of_int (round_half_even (x / ?u)) * ?u"
      using up by (intro mult_right_mono) simp_all
    then have lo: "of_int k \<le> round_double x"
      unfolding rd by (simp only: int_mult[of k, symmetric])
    have "x \<le> of_int ((k + 1) * c) * ?u"
      using k2 by (simp only: int_mult[of "k + 1", symmetric])
    then have "x / ?u \<le> of_int ((k + 1) * c)"
      using pos_divide_le_eq[OF up, of x "of_int ((k + 1) * c)"] by blast
    then have "round_half_even (x / ?u) \<le> (k + 1) * c" by (rule round_half_even_le)
    then have "(of_int (round_half_even (x / ?u)) :: rat) \<le> of_int ((k + 1) * c)"
      by (simp only: of_int_le_iff)
    then have "of_int (round_half_even (x / ?u)) * ?u \<le> of_int ((k + 1) * c) * ?u"
      using up by (intro mult_right_mono) simp_all
    then have hi: "round_double x \<le> of_int (k + 1)"
      unfolding rd by (simp only: int_mult[of "k + 1", symmetric])
    from lo hi show ?thesis ..
  qed
  then show "of_int \<lfloor>x\<rfloor> \<le> round_double x" and "round_double x \<le> of_int \<lfloor>x\<rfloor> + 1"
    unfolding k_def by simp_all
qed

lemma floor_round_double:
  assumes "0 \<le> x" and "x < 2 ^ 53"
  shows "\<lfloor>x\<rfloor> \<le> \<lfloor>round_double x\<rfloor>" and "\<lfloor>round_double x\<rfloor> \<le> \<lfloor>x\<rfloor> + 1"
proof -
  from round_double_int_bounds(1)[OF assms] show "\<lfloor>x\<rfloor> \<le> \<lfloor>round_double x\<rfloor>"
    by (simp only: le_floor_iff)
  have "round_double x \<le> of_int (\<lfloor>x\<rfloor> + 1)"
    using round_double_int_bounds(2)[OF assms] by simp
  then have "\<lfloor>round_double x\<rfloor> \<le> \<lfloor>of_int (\<lfloor>x\<rfloor> + 1) :: rat\<rfloor>" by (rule floor_mono)
  then show "\<lfloor>round_double x\<rfloor> \<le> \<lfloor>x\<rfloor> + 1" by (simp only: floor_of_int)
qed

lemma js_sub_near:
  "min_normal \<le> \<bar>a - b\<bar> \<Longrightarrow> \<bar>js_sub a b - (a - b)\<bar> \<le> \<bar>a - b\<bar> / 2 ^ 53"
  unfolding js_sub_def by (rule round_double_rel)

lemma js_sub_int:
  "\<bar>i - j\<bar> \<le> 2 ^ 53 \<Longrightarrow> js_sub (of_int i) (of_int j) = of_int (i - j)"
  using round_double_of_int[of "i - j"] by (simp add: js_sub_def)

text \<open>
  The operations at some inputs: 0.1 as a double; 1000.1 - 0.1, which is 1000;
  \<open>2^53 - 0.5\<close>, which is \<open>2^53\<close>; 60 * 0.3, which is 18 (the exact product of the two
  doubles is below 18); 90 * 0.7, which is below 63; and the three rounds of three seconds
  of a soak of 10 seconds polled at 0.3.
\<close>

lemma round_double_tenth: "round_double (1 / 10) = 3602879701896397 / 36028797018963968"
  by code_simp

lemma js_sub_rounds: "js_sub (round_double (10001 / 10)) (round_double (1 / 10)) = 1000"
  by code_simp

lemma js_sub_absorbs: "js_sub 9007199254740992 (1 / 2) = 9007199254740992"
  by code_simp

lemma interval_60_03:
  "intervalTimeSeconds_of 60 (round_double (3 / 10)) = 18
   \<and> \<lfloor>60 * round_double (3 / 10)\<rfloor> = (17::int)"
  by code_simp

lemma interval_90_07: "intervalTimeSeconds_of 90 (round_double (7 / 10)) = 62"
  by code_simp

lemma rounds_10_03:
  "intervalTimeSeconds_of 10 (round_double (3 / 10)) = 3
   \<and> soak_round_count 10 (intervalTimeSeconds_of 10 (round_double (3 / 10))) = 3"
  by code_simp

lemma js_sub_150_100: "js_sub 150 100 = 50"
  by code_simp

lemma js_sub_21_20: "js_sub 21 20 = 1"
  by code_simp

lemma js_sub_doubles:
  "js_sub (8796972631510221 / 8796093022208) (3602879701896397 / 36028797018963968) = 1000"
  by code_simp

lemma js_mul_60_03: "\<lfloor>js_mul 60 (5404319552844595 / 18014398509481984)\<rfloor> = 18"
  by code_simp

lemma js_div_60_18: "\<lfloor>js_div 60 18\<rfloor> = 3"
  by code_simp

subsection \<open>The program\<close>

lemma checkSLOs_eq:
  "checkSLOs acc cs m = acc @ map (violation_of m) (filter (violated m) cs)"
  by (induction cs arbitrary: acc) (simp_all add: Let_def violated_def violation_of_def)

lemma evaluateSLOs_violations:
  "violations (evaluateSLOs cs m) = map (violation_of m) (filter (violated m) cs)"
  by (simp add: evaluateSLOs_def Let_def checkSLOs_eq)

lemma evaluateSLOs_passed:
  "passed (evaluateSLOs cs m) \<longleftrightarrow> (\<forall>c \<in> set cs. \<not> violated m c)"
  by (simp add: evaluateSLOs_def Let_def checkSLOs_eq filter_empty_conv)

lemma createRelease_take:
  "releases (snd (createRelease r h)) = r # take 99 (releases h)"
  by (auto simp: createRelease_def trimReleaseHistory_def MAX_RELEASES_def)

lemma sorted_wrt_take_prefix: "sorted_wrt P xs \<Longrightarrow> sorted_wrt P (take n xs)"
  by (metis append_take_drop_id sorted_wrt_append)

lemma save_same: "main st = Some stage \<Longrightarrow> save stage st = st"
  by (simp add: save_def)

lemma verbose_done_same:
  "stage_done s \<Longrightarrow> getVerboseStateMessage s s = None"
  by (cases s) (simp_all add: getVerboseStateMessage_def)

lemma transition_done_same:
  "stage_done (stage_state stage) \<Longrightarrow>
     Stage_handleStateTransition now stage (stage_state stage) st = (stage, st)"
  by (cases "stage_state stage") (simp_all add: Stage_handleStateTransition_def)

lemma updateStageState_same_terminal:
  "main st = Some stage \<Longrightarrow> stage_done (stage_state stage) \<Longrightarrow>
     updateStageState now (stage_state stage) None st = (Some stage, st)"
  by (simp add: updateStageState_def StageStorage_get_def transition_done_same
        verbose_done_same save_same)

lemma transition_state:
  "stage_state (fst (Stage_handleStateTransition now stage s st)) = s"
  by (simp add: Stage_handleStateTransition_def Let_def split: option.splits)

lemma transition_main:
  "main (snd (Stage_handleStateTransition now stage s st)) = main st"
  by (simp add: Stage_handleStateTransition_def Let_def setAlarmIfNeeded_def
        clearAlarmIfNeeded_def split: option.splits)

lemma updateStage_logs_state:
  "main st = Some d \<Longrightarrow>
     \<exists>d'. main (snd (updateStage now (logs_update l) st)) = Some d'
          \<and> stage_state d' = stage_state d"
  by (simp add: updateStage_def StageStorage_get_def Let_def spread_def logs_update_def save_def)

lemma updateStageState_sets_state:
  "main st = Some stage \<Longrightarrow>
     \<exists>d. main (snd (updateStageState now s logs st)) = Some d \<and> stage_state d = s"
proof -
  assume m: "main st = Some stage"
  obtain u st1 where t: "Stage_handleStateTransition now stage s st = (u, st1)"
    by (cases "Stage_handleStateTransition now stage s st")
  have us: "stage_state u = s" using transition_state[of now stage s st] t by simp
  let ?u = "u\<lparr>stage_logs := (case logs of Some l \<Rightarrow> if l = [] then stage_logs stage else l
                  | None \<Rightarrow> stage_logs stage)\<rparr>"
  have sv: "main (save ?u st1) = Some ?u" by (simp add: save_def)
  show ?thesis
  proof (cases "getVerboseStateMessage s (stage_state stage)")
    case None
    then show ?thesis using m t us
      by (simp add: updateStageState_def StageStorage_get_def save_def Let_def)
  next
    case (Some msg)
    from updateStage_logs_state[OF sv, of now "stage_logs stage @ [(now, msg)]"]
    obtain d' where "main (snd (updateStage now (logs_update (stage_logs stage @ [(now, msg)]))
                (save ?u st1))) = Some d'" and "stage_state d' = stage_state ?u"
      by blast
    then show ?thesis using m t us Some
      by (simp add: updateStageState_def StageStorage_get_def addLog_continue_def Let_def)
  qed
qed

lemma on_stage_frame:
  "release_history (snd (on_stage sid m w)) = release_history w"
  "plan_storage (snd (on_stage sid m w)) = plan_storage w"
  "deployments (snd (on_stage sid m w)) = deployments w"
  "telemetry_queries (snd (on_stage sid m w)) = telemetry_queries w"
  "clock (snd (on_stage sid m w)) = clock w"
  "stage_storage (snd (on_stage sid m w)) =
     (stage_storage w)(sid := snd (m (clock w) (stage_storage w sid)))"
  by (simp_all add: on_stage_def split_def Let_def)

lemma on_history_frame:
  "stage_storage (snd (on_history c m w)) = stage_storage w"
  "plan_storage (snd (on_history c m w)) = plan_storage w"
  "deployments (snd (on_history c m w)) = deployments w"
  "telemetry_queries (snd (on_history c m w)) = telemetry_queries w"
  "clock (snd (on_history c m w)) = clock w"
  "release_history (snd (on_history c m w)) =
     (release_history w)(c := snd (m (clock w) (release_history w c)))"
  by (simp_all add: on_history_def split_def Let_def)

lemma stage_update_frame:
  "release_history (stage_updateStageState sid s w) = release_history w"
  "plan_storage (stage_updateStageState sid s w) = plan_storage w"
  "deployments (stage_updateStageState sid s w) = deployments w"
  "telemetry_queries (stage_updateStageState sid s w) = telemetry_queries w"
  "clock (stage_updateStageState sid s w) = clock w"
  by (simp_all add: stage_updateStageState_def on_stage_frame)

lemma stage_update_other:
  "sid' \<noteq> sid \<Longrightarrow> stage_storage (stage_updateStageState sid s w) sid' = stage_storage w sid'"
  by (simp add: stage_updateStageState_def on_stage_frame)

lemma stage_update_sets:
  "main (stage_storage w sid) = Some d \<Longrightarrow>
     \<exists>d'. main (stage_storage (stage_updateStageState sid s w) sid) = Some d'
          \<and> stage_state d' = s"
  using updateStageState_sets_state[of "stage_storage w sid" d "clock w" s None]
  by (simp add: stage_updateStageState_def on_stage_frame)

lemma history_update_frame:
  "stage_storage (history_updateReleaseState c rid s w) = stage_storage w"
  "plan_storage (history_updateReleaseState c rid s w) = plan_storage w"
  "deployments (history_updateReleaseState c rid s w) = deployments w"
  "telemetry_queries (history_updateReleaseState c rid s w) = telemetry_queries w"
  "clock (history_updateReleaseState c rid s w) = clock w"
  by (simp_all add: history_updateReleaseState_def on_history_frame)

lemma bad_frame:
  "release_history (updateStagesStateBad rid ss s e w) = release_history w
   \<and> plan_storage (updateStagesStateBad rid ss s e w) = plan_storage w
   \<and> deployments (updateStagesStateBad rid ss s e w) = deployments w
   \<and> telemetry_queries (updateStagesStateBad rid ss s e w) = telemetry_queries w
   \<and> clock (updateStagesStateBad rid ss s e w) = clock w"
  by (induction ss arbitrary: w)
     (simp_all add: Let_def stage_update_frame split: option.splits)

lemma bad_skips:
  "settled w sid \<or> sid \<notin> (\<lambda>p. getStageId rid (order p)) ` set ss \<Longrightarrow>
     stage_storage (updateStagesStateBad rid ss s True w) sid = stage_storage w sid"
proof (induction ss arbitrary: w)
  case Nil
  then show ?case by simp
next
  case (Cons p ss)
  let ?sid = "getStageId rid (order p)"
  let ?w1 = "(case StageStorage_get (stage_storage w ?sid) of
                 None \<Rightarrow> w
               | Some d \<Rightarrow>
                   if \<not> True \<or> \<not> stage_done (stage_state d)
                   then stage_updateStageState ?sid s w
                   else w)"
  have same: "stage_storage ?w1 sid = stage_storage w sid"
  proof (cases "sid = ?sid")
    case True
    with Cons.prems have "settled w sid" by auto
    then show ?thesis using True
      by (auto simp: settled_def StageStorage_get_def split: option.splits)
  next
    case False
    then show ?thesis
      by (auto simp: stage_update_other split: option.splits)
  qed
  have "settled ?w1 sid \<or> sid \<notin> (\<lambda>p. getStageId rid (order p)) ` set ss"
    using Cons.prems same by (auto simp: settled_def)
  from Cons.IH[OF this] same show ?case
    by (simp add: Let_def)
qed

lemma bad_cancels:
  "stage_done s \<Longrightarrow> sid \<in> (\<lambda>p. getStageId rid (order p)) ` set ss \<Longrightarrow>
   main (stage_storage w sid) = Some d \<Longrightarrow> \<not> stage_done (stage_state d) \<Longrightarrow>
     \<exists>d'. main (stage_storage (updateStagesStateBad rid ss s True w) sid) = Some d'
          \<and> stage_state d' = s"
proof (induction ss arbitrary: w d)
  case Nil
  then show ?case by simp
next
  case (Cons p ss)
  let ?sid = "getStageId rid (order p)"
  let ?w1 = "(case StageStorage_get (stage_storage w ?sid) of
                 None \<Rightarrow> w
               | Some d \<Rightarrow>
                   if \<not> True \<or> \<not> stage_done (stage_state d)
                   then stage_updateStageState ?sid s w
                   else w)"
  have step: "updateStagesStateBad rid (p # ss) s True w = updateStagesStateBad rid ss s True ?w1"
    by (simp add: Let_def)
  show ?case
  proof (cases "sid = ?sid")
    case True
    then have w1: "?w1 = stage_updateStageState sid s w"
      using Cons.prems by (simp add: StageStorage_get_def)
    from stage_update_sets[OF Cons.prems(3), of s] obtain d' where
      d': "main (stage_storage (stage_updateStageState sid s w) sid) = Some d'" "stage_state d' = s"
      by blast
    then have "settled ?w1 sid" using w1 Cons.prems(1) by (simp add: settled_def)
    then have "stage_storage (updateStagesStateBad rid ss s True ?w1) sid = stage_storage ?w1 sid"
      using bad_skips by blast
    then show ?thesis using step d' w1 by simp
  next
    case False
    then have same: "stage_storage ?w1 sid = stage_storage w sid"
      by (auto simp: stage_update_other split: option.splits)
    from False Cons.prems(2) have "sid \<in> (\<lambda>p. getStageId rid (order p)) ` set ss" by auto
    from Cons.IH[OF Cons.prems(1) this, of ?w1 d] same Cons.prems
    show ?thesis using step by simp
  qed
qed

lemma findIndex_find:
  "find p xs = Some x \<Longrightarrow>
     \<exists>i. findIndex p xs = Some i \<and> i < length xs \<and> xs ! i = x
        \<and> (\<forall>x'. p x' \<longrightarrow> find p (xs[i := x']) = Some x')"
proof (induction xs)
  case Nil
  then show ?case by simp
next
  case (Cons a xs)
  show ?case
  proof (cases "p a")
    case True
    with Cons.prems show ?thesis by simp
  next
    case False
    with Cons.prems have "find p xs = Some x" by simp
    from Cons.IH[OF this] obtain i where
      "findIndex p xs = Some i" "i < length xs" "xs ! i = x"
      "\<forall>x'. p x' \<longrightarrow> find p (xs[i := x']) = Some x'" by blast
    with False show ?thesis by simp
  qed
qed

lemma findIndex_None: "find p xs = None \<Longrightarrow> findIndex p xs = None"
  by (induction xs) (simp_all split: if_splits)

lemma findIndex_Some_find:
  "findIndex p xs = Some i \<Longrightarrow> i < length xs \<and> p (xs ! i) \<and> find p xs = Some (xs ! i)"
proof (induction xs arbitrary: i)
  case Nil
  then show ?case by simp
next
  case (Cons a xs)
  then show ?case
    by (cases "p a") (auto split: option.splits)
qed

lemma release_transition_id:
  "release_id (fst (Release_handleStateTransition now r prev s h)) = release_id r"
  by (simp add: Release_handleStateTransition_def Let_def split: option.splits)

lemma release_transition_state:
  "release_state (fst (Release_handleStateTransition now r prev s h)) = s"
  by (simp add: Release_handleStateTransition_def Let_def split: option.splits)

lemma release_transition_releases:
  "releases (snd (Release_handleStateTransition now r prev s h)) = releases h"
  by (simp add: Release_handleStateTransition_def Let_def split: option.splits)

lemma updateReleaseState_found:
  assumes "getRelease rid h = Some r"
  shows "fst (updateReleaseState now rid s h)
       \<and> (\<exists>r'. getRelease rid (snd (updateReleaseState now rid s h)) = Some r'
              \<and> release_state r' = s)"
proof -
  from assms have f: "find (\<lambda>x. release_id x = rid) (releases h) = Some r"
    by (simp add: getRelease_def)
  from findIndex_find[OF f] obtain i where
    i: "findIndex (\<lambda>x. release_id x = rid) (releases h) = Some i" "i < length (releases h)"
       "releases h ! i = r"
       "\<forall>x'. release_id x' = rid \<longrightarrow>
           find (\<lambda>x. release_id x = rid) ((releases h)[i := x']) = Some x'" by blast
  from f have rid: "release_id r = rid" by (auto dest: find_Some_iff[THEN iffD1])
  obtain u h1 where t: "Release_handleStateTransition now r (release_state r) s h = (u, h1)"
    by (cases "Release_handleStateTransition now r (release_state r) s h")
  have u: "release_id u = rid" "release_state u = s" "releases h1 = releases h"
    using release_transition_id[of now r "release_state r" s h]
          release_transition_state[of now r "release_state r" s h]
          release_transition_releases[of now r "release_state r" s h] t rid by simp_all
  have "updateReleaseState now rid s h = (True, h1\<lparr>releases := (releases h1)[i := u]\<rparr>)"
    using i t by (simp add: updateReleaseState_def findReleaseIndex_def Let_def)
  then show ?thesis using u i(4) by (simp add: getRelease_def)
qed

lemma updateReleaseState_same_terminal:
  assumes "findReleaseIndex rid h = Some i"
    and "release_state (releases h ! i) \<noteq> R_not_started"
    and "release_state (releases h ! i) \<noteq> R_running"
  shows "updateReleaseState now rid (release_state (releases h ! i)) h = (True, h)"
proof -
  have "Release_handleStateTransition now (releases h ! i) (release_state (releases h ! i))
          (release_state (releases h ! i)) h = (releases h ! i, h)"
    using assms(2,3) by (simp add: Release_handleStateTransition_def)
  then show ?thesis using assms(1)
    by (simp add: updateReleaseState_def Let_def)
qed

lemma updateReleaseState_overwrites:
  assumes "findReleaseIndex rid h = Some i"
  shows "release_state (releases (snd (updateReleaseState now rid s h)) ! i) = s"
proof -
  from findIndex_Some_find[OF assms[unfolded findReleaseIndex_def]]
  have il: "i < length (releases h)" by simp
  obtain u h1 where t: "Release_handleStateTransition now (releases h ! i)
      (release_state (releases h ! i)) s h = (u, h1)"
    by (cases "Release_handleStateTransition now (releases h ! i)
      (release_state (releases h ! i)) s h")
  have u: "release_state u = s" "releases h1 = releases h"
    using release_transition_state[of now "releases h ! i" "release_state (releases h ! i)" s h]
          release_transition_releases[of now "releases h ! i" "release_state (releases h ! i)" s h]
          t by simp_all
  show ?thesis using assms t u il
    by (simp add: updateReleaseState_def Let_def)
qed

lemma history_update_found:
  assumes "getRelease rid (release_history w c) = Some r"
  shows "\<exists>r'. getRelease rid (release_history (history_updateReleaseState c rid s w) c) = Some r'
              \<and> release_state r' = s"
  using updateReleaseState_found[OF assms, of "clock w" s]
  by (simp add: history_updateReleaseState_def on_history_frame)

lemma getRelease_id: "getRelease rid h = Some r \<Longrightarrow> release_id r = rid"
  by (auto simp: getRelease_def dest: find_Some_iff[THEN iffD1])

lemma addLog_keeps:
  "main st = Some d \<Longrightarrow>
     \<exists>d'. main (snd (addLog now m st)) = Some d' \<and> stage_state d' = stage_state d"
  using updateStage_logs_state[of st d now "stage_logs d @ [(now, m)]"]
  by (simp add: addLog_def addLog_continue_def StageStorage_get_def Let_def)

lemma handleSLOViolation_post:
  assumes rel: "getRelease rid (release_history w c) = Some r"
    and st: "main (stage_storage w (ref_id sr)) = Some d"
    and wf: "ref_id sr = getStageId rid (ref_order sr)"
    and same: "\<forall>sid. sid \<noteq> ref_id sr \<longrightarrow> stage_storage w sid = before sid"
  shows "violation_handled c rid r sr before
           (handleSLOViolation c rid (ref_order sr) (ref_id sr) w)"
proof -
  let ?sid = "ref_id sr"
  let ?w1 = "stage_updateStageState ?sid S_done_failed w"
  let ?rem = "filter (\<lambda>s. order s > ref_order sr) (stages (plan_record r))"
  let ?w2 = "updateStagesStateBad rid ?rem S_done_cancelled True ?w1"
  let ?w3 = "history_updateReleaseState c rid R_done_failed_slo ?w2"
  have h: "handleSLOViolation c rid (ref_order sr) (ref_id sr) w = ?w3"
    using rel by (simp add: handleSLOViolation_def Let_def)
  from stage_update_sets[OF st, of S_done_failed] obtain d' where
    d': "main (stage_storage ?w1 ?sid) = Some d'" "stage_state d' = S_done_failed" by blast
  then have "settled ?w1 ?sid" by (simp add: settled_def)
  then have keep: "stage_storage ?w2 ?sid = stage_storage ?w1 ?sid"
    using bad_skips by blast
  have 1: "\<exists>d'. main (stage_storage ?w3 ?sid) = Some d' \<and> stage_state d' = S_done_failed"
    using keep d' by (simp add: history_update_frame)
  have 2: "\<forall>s \<in> set (stages (plan_record r)). order s > ref_order sr \<longrightarrow>
         (\<forall>d0. main (before (getStageId rid (order s))) = Some d0 \<longrightarrow>
            (\<exists>d1. main (stage_storage ?w3 (getStageId rid (order s))) = Some d1
                 \<and> stage_state d1 =
                     (if stage_done (stage_state d0) then stage_state d0 else S_done_cancelled)))"
  proof (intro ballI impI allI)
    fix s d0
    assume s: "s \<in> set (stages (plan_record r))" and gt: "ref_order sr < order s"
      and d0: "main (before (getStageId rid (order s))) = Some d0"
    let ?s = "getStageId rid (order s)"
    have ne: "?s \<noteq> ?sid" using wf gt by (simp add: getStageId_def)
    then have b: "stage_storage ?w1 ?s = before ?s"
      using same by (simp add: stage_update_other)
    have mem: "?s \<in> (\<lambda>p. getStageId rid (order p)) ` set ?rem" using s gt by auto
    show "\<exists>d1. main (stage_storage ?w3 ?s) = Some d1
                 \<and> stage_state d1 =
                     (if stage_done (stage_state d0) then stage_state d0 else S_done_cancelled)"
    proof (cases "stage_done (stage_state d0)")
      case True
      then have "settled ?w1 ?s" using b d0 by (simp add: settled_def)
      then have "stage_storage ?w2 ?s = stage_storage ?w1 ?s" using bad_skips by blast
      then show ?thesis using True b d0 by (simp add: history_update_frame)
    next
      case False
      have m1: "main (stage_storage ?w1 ?s) = Some d0" using b d0 by simp
      from bad_cancels[OF _ mem m1 False, of S_done_cancelled]
      show ?thesis using False by (simp add: history_update_frame)
    qed
  qed
  have "release_history ?w2 = release_history w"
    using bad_frame[of rid ?rem S_done_cancelled True ?w1] by (simp add: stage_update_frame)
  then have "getRelease rid (release_history ?w2 c) = Some r" using rel by simp
  from history_update_found[OF this, of R_done_failed_slo]
  have 3: "\<exists>r'. getRelease rid (release_history ?w3 c) = Some r'
          \<and> release_state r' = R_done_failed_slo" .
  show ?thesis unfolding h violation_handled_def using 1 2 3 by blast
qed

lemma handleSLOViolation_frame:
  "telemetry_queries (handleSLOViolation c rid ord sid w) = telemetry_queries w"
  using bad_frame
  by (simp add: handleSLOViolation_def Let_def history_update_frame 
        stage_update_frame split: option.splits)

lemma deploy_frame:
  "telemetry_queries (snd (deploy env d w)) = telemetry_queries w"
  by (simp add: deploy_def Let_def)

lemma handleExternalCancellation_frame:
  "telemetry_queries (snd (handleExternalCancellation env c rid ord w)) = telemetry_queries w"
  using bad_frame
  by (simp add: handleExternalCancellation_def Let_def history_update_frame revertDeployment_def
        deploy_frame split: option.splits)

lemma checkCancellation_tq:
  "telemetry_queries (snd (checkCancellation env c rid sr j w)) = telemetry_queries w"
proof (induction j arbitrary: w)
  case 0
  then show ?case by simp
next
  case (Suc j)
  show ?case
  proof (cases "case getRelease rid (release_history w c) of None \<Rightarrow> True
                | Some r \<Rightarrow> release_state r \<noteq> R_running")
    case True
    let ?h = "handleExternalCancellation env c
                (case getRelease rid (release_history w c) of None \<Rightarrow> [] | Some r \<Rightarrow> release_id r)
                (ref_order sr) w"
    have "telemetry_queries (snd ?h) = telemetry_queries w"
      by (rule handleExternalCancellation_frame)
    then show ?thesis using True
      by (cases ?h; cases "fst ?h") (simp_all add: Let_def)
  next
    case False
    then show ?thesis using Suc.IH[of "sleep_1_second w"]
      by (simp add: Let_def sleep_1_second_def)
  qed
qed

lemma checkCancellation_Continue:
  "checkCancellation env c rid sr j w = (Returned Continue, w1) \<Longrightarrow>
     w1 = w\<lparr>clock := clock w + 1000 * int j\<rparr>"
proof (induction j arbitrary: w)
  case 0
  then show ?case by simp
next
  case (Suc j)
  show ?case
  proof (cases "case getRelease rid (release_history w c) of None \<Rightarrow> True
                | Some r \<Rightarrow> release_state r \<noteq> R_running")
    case True
    let ?h = "handleExternalCancellation env c
                (case getRelease rid (release_history w c) of None \<Rightarrow> [] | Some r \<Rightarrow> release_id r)
                (ref_order sr) w"
    from True Suc.prems show ?thesis
      by (cases ?h; cases "fst ?h") (simp_all add: Let_def)
  next
    case False
    with Suc.prems have "checkCancellation env c rid sr j (sleep_1_second w) = (Returned Continue, w1)"
      by (simp add: Let_def)
    from Suc.IH[OF this] show ?thesis
      by (simp add: sleep_1_second_def algebra_simps)
  qed
qed

lemma checkCancellation_running:
  "getRelease rid (release_history w c) = Some r \<Longrightarrow> release_state r = R_running \<Longrightarrow>
     checkCancellation env c rid sr j w = (Returned Continue, w\<lparr>clock := clock w + 1000 * int j\<rparr>)"
proof (induction j arbitrary: w)
  case 0
  then show ?case by simp
next
  case (Suc j)
  have "getRelease rid (release_history (sleep_1_second w) c) = Some r"
    using Suc.prems by (simp add: sleep_1_second_def)
  from Suc.IH[OF this Suc.prems(2)] Suc.prems show ?case
    by (simp add: Let_def sleep_1_second_def algebra_simps)
qed

lemma evaluateSLOs_Nil: "passed (evaluateSLOs [] m)"
  by (simp add: evaluateSLOs_def)

lemma getWallTimes_Some:
  "wallTimes env (length (telemetry_queries w)) = Some m \<Longrightarrow>
     getWallTimes env a b w = (Returned m, w\<lparr>telemetry_queries := telemetry_queries w @ [(a, b)]\<rparr>)"
  by (simp add: getWallTimes_def Let_def)

lemma getWallTimes_None:
  "wallTimes env (length (telemetry_queries w)) = None \<Longrightarrow>
     getWallTimes env a b w = (Threw, w\<lparr>telemetry_queries := telemetry_queries w @ [(a, b)]\<rparr>)"
  by (simp add: getWallTimes_def Let_def)

lemma soakRounds_Suc_cases:
  obtains
    (stopped) w1 res where "checkCancellation env c rid sr (nat I) w = (res, w1)"
        "res \<noteq> Returned Continue"
        "soakRounds env c rid (Some r) sr I (Suc n) w = (res, w1)"
  | (threw) "wallTimes env (length (telemetry_queries w)) = None"
        "soakRounds env c rid (Some r) sr I (Suc n) w =
           (Threw, w\<lparr>clock := clock w + 1000 * int (nat I),
                     telemetry_queries := telemetry_queries w @
                       [(clock w + 1000 * int (nat I) - I * 1000, clock w + 1000 * int (nat I))]\<rparr>)"
  | (violated) m where "wallTimes env (length (telemetry_queries w)) = Some m"
        "\<not> passed (evaluateSLOs (parseSLOsFromPlan (slos (plan_record r))) m)"
        "soakRounds env c rid (Some r) sr I (Suc n) w =
           (Returned Exit,
            handleSLOViolation c (release_id r) (ref_order sr) (ref_id sr)
              (snd (on_stage (ref_id sr) (\<lambda>now. addLog now ''SLO violations'')
                 (w\<lparr>clock := clock w + 1000 * int (nat I),
                     telemetry_queries := telemetry_queries w @
                       [(clock w + 1000 * int (nat I) - I * 1000, clock w + 1000 * int (nat I))]\<rparr>))))"
  | (passed) m where "wallTimes env (length (telemetry_queries w)) = Some m"
        "passed (evaluateSLOs (parseSLOsFromPlan (slos (plan_record r))) m)"
        "soakRounds env c rid (Some r) sr I (Suc n) w =
           soakRounds env c rid (Some r) sr I n
             (w\<lparr>clock := clock w + 1000 * int (nat I),
                telemetry_queries := telemetry_queries w @
                  [(clock w + 1000 * int (nat I) - I * 1000, clock w + 1000 * int (nat I))]\<rparr>)"
proof -
  obtain res w1 where cc: "checkCancellation env c rid sr (nat I) w = (res, w1)"
    by (cases "checkCancellation env c rid sr (nat I) w")
  show thesis
  proof (cases "res = Returned Continue")
    case False
    then have "soakRounds env c rid (Some r) sr I (Suc n) w = (res, w1)"
      using cc by (cases res; cases "case res of Returned x \<Rightarrow> x | _ \<Rightarrow> Exit") auto
    with cc False show thesis by (rule stopped)
  next
    case True
    with cc have w1: "w1 = w\<lparr>clock := clock w + 1000 * int (nat I)\<rparr>"
      using checkCancellation_Continue by blast
    let ?w2 = "w\<lparr>clock := clock w + 1000 * int (nat I),
                     telemetry_queries := telemetry_queries w @
                       [(clock w + 1000 * int (nat I) - I * 1000, clock w + 1000 * int (nat I))]\<rparr>"
    show thesis
    proof (cases "wallTimes env (length (telemetry_queries w))")
      case None
      then have "getWallTimes env (clock w1 - I * 1000) (clock w1) w1 = (Threw, ?w2)"
        using getWallTimes_None[of env w1] w1 by simp
      then have "soakRounds env c rid (Some r) sr I (Suc n) w = (Threw, ?w2)"
        using cc True by simp
      with None show thesis by (rule threw)
    next
      case (Some m)
      then have g: "getWallTimes env (clock w1 - I * 1000) (clock w1) w1 = (Returned m, ?w2)"
        using getWallTimes_Some[of env w1] w1 by simp
      show thesis
      proof (cases "passed (evaluateSLOs (parseSLOsFromPlan (slos (plan_record r))) m)")
        case True
        have "soakRounds env c rid (Some r) sr I (Suc n) w =
           soakRounds env c rid (Some r) sr I n ?w2"
          using cc \<open>res = Returned Continue\<close> g True by (simp add: Let_def)
        with Some True show thesis by (rule passed)
      next
        case False
        then have ne: "parseSLOsFromPlan (slos (plan_record r)) \<noteq> []"
          using evaluateSLOs_Nil by auto
        have "soakRounds env c rid (Some r) sr I (Suc n) w =
           (Returned Exit,
            handleSLOViolation c (release_id r) (ref_order sr) (ref_id sr)
              (snd (on_stage (ref_id sr) (\<lambda>now. addLog now ''SLO violations'') ?w2)))"
          using cc \<open>res = Returned Continue\<close> g False ne by (simp add: Let_def)
        with Some False show thesis by (rule violated)
      qed
    qed
  qed
qed

lemma soakRounds_violation:
  assumes "getRelease rid (release_history w c) = Some r"
    and "main (stage_storage w (ref_id sr)) = Some d"
    and "ref_id sr = getStageId rid (ref_order sr)"
    and "soakRounds env c rid (Some r) sr I n w = (res, w')"
    and "length (telemetry_queries w) \<le> k" and "k < length (telemetry_queries w')"
    and "wallTimes env k = Some m"
    and "\<not> passed (evaluateSLOs (parseSLOsFromPlan (slos (plan_record r))) m)"
  shows "res = Returned Exit \<and> violation_handled c rid r sr (stage_storage w) w'"
  using assms
proof (induction n arbitrary: w d)
  case 0
  then show ?case by simp
next
  case (Suc n)
  let ?w2 = "w\<lparr>clock := clock w + 1000 * int (nat I),
                telemetry_queries := telemetry_queries w @
                  [(clock w + 1000 * int (nat I) - I * 1000, clock w + 1000 * int (nat I))]\<rparr>"
  show ?case
  proof (cases rule: soakRounds_Suc_cases[of env c rid sr I w r n])
    case (stopped w1 res1)
    then have "telemetry_queries w' = telemetry_queries w"
      using checkCancellation_tq[of env c rid sr "nat I" w] Suc.prems(4) by simp
    with Suc.prems(5,6) show ?thesis by simp
  next
    case threw
    with Suc.prems(4) have "length (telemetry_queries w') = Suc (length (telemetry_queries w))"
      by auto
    with Suc.prems(5,6) have "k = length (telemetry_queries w)" by simp
    with threw(1) Suc.prems(7) show ?thesis by simp
  next
    case (violated m0)
    let ?wa = "snd (on_stage (ref_id sr) (\<lambda>now. addLog now ''SLO violations'') ?w2)"
    have rid: "release_id r = rid" using Suc.prems(1) by (rule getRelease_id)
    have rel: "getRelease rid (release_history ?wa c) = Some r"
      using Suc.prems(1) by (simp add: on_stage_frame)
    from addLog_keeps[OF Suc.prems(2), of "clock ?w2" "''SLO violations''"]
    obtain d' where "main (stage_storage ?wa (ref_id sr)) = Some d'"
      by (auto simp: on_stage_frame)
    moreover have "\<forall>sid. sid \<noteq> ref_id sr \<longrightarrow> stage_storage ?wa sid = stage_storage w sid"
      by (simp add: on_stage_frame)
    ultimately have "violation_handled c rid r sr (stage_storage w)
           (handleSLOViolation c rid (ref_order sr) (ref_id sr) ?wa)"
      using handleSLOViolation_post[OF rel _ Suc.prems(3)] by blast
    with violated(3) Suc.prems(4) rid show ?thesis by simp
  next
    case (passed m0)
    have "k \<noteq> length (telemetry_queries w)"
      using passed(1,2) Suc.prems(7,8) by auto
    with Suc.prems(5) have k: "length (telemetry_queries ?w2) \<le> k" by simp
    have run: "soakRounds env c rid (Some r) sr I n ?w2 = (res, w')"
      using passed(3) Suc.prems(4) by simp
    have "res = Returned Exit \<and> violation_handled c rid r sr (stage_storage ?w2) w'"
      by (rule Suc.IH[OF _ _ Suc.prems(3) run k Suc.prems(6,7,8)])
         (use Suc.prems(1,2) in simp_all)
    then show ?thesis by simp
  qed
qed

lemma soakRounds_queries:
  "\<exists>new. telemetry_queries (snd (soakRounds env c rid (Some r) sr I n w)) =
            telemetry_queries w @ new
        \<and> length new \<le> n \<and> (\<forall>q \<in> set new. snd q - fst q = I * 1000)"
proof (induction n arbitrary: w)
  case 0
  then show ?case by simp
next
  case (Suc n)
  let ?q = "(clock w + 1000 * int (nat I) - I * 1000, clock w + 1000 * int (nat I))"
  let ?w2 = "w\<lparr>clock := clock w + 1000 * int (nat I),
                telemetry_queries := telemetry_queries w @ [?q]\<rparr>"
  show ?case
  proof (cases rule: soakRounds_Suc_cases[of env c rid sr I w r n])
    case (stopped w1 res1)
    then show ?thesis
      using checkCancellation_tq[of env c rid sr "nat I" w] by simp
  next
    case threw
    then show ?thesis by simp
  next
    case (violated m0)
    then show ?thesis by (simp add: handleSLOViolation_frame on_stage_frame)
  next
    case (passed m0)
    from Suc.IH[of ?w2] obtain new where
      n: "telemetry_queries (snd (soakRounds env c rid (Some r) sr I n ?w2)) =
            telemetry_queries ?w2 @ new"
         "length new \<le> n" "\<forall>q \<in> set new. snd q - fst q = I * 1000" by blast
    have "telemetry_queries (snd (soakRounds env c rid (Some r) sr I (Suc n) w)) =
            telemetry_queries w @ (?q # new)"
      using passed(3) n(1) by simp
    moreover have "length (?q # new) \<le> Suc n" using n(2) by simp
    moreover have "\<forall>q \<in> set (?q # new). snd q - fst q = I * 1000" using n(3) by simp
    ultimately show ?thesis by blast
  qed
qed

lemma soakRounds_Continue:
  "soakRounds env c rid (Some r) sr I n w = (Returned Continue, w') \<Longrightarrow>
     length (telemetry_queries w') = length (telemetry_queries w) + n
   \<and> clock w' = clock w + 1000 * int (nat I) * int n
   \<and> stage_storage w' = stage_storage w
   \<and> release_history w' = release_history w
   \<and> deployments w' = deployments w"
proof (induction n arbitrary: w)
  case 0
  then show ?case by simp
next
  case (Suc n)
  let ?q = "(clock w + 1000 * int (nat I) - I * 1000, clock w + 1000 * int (nat I))"
  let ?w2 = "w\<lparr>clock := clock w + 1000 * int (nat I),
                telemetry_queries := telemetry_queries w @ [?q]\<rparr>"
  show ?case
  proof (cases rule: soakRounds_Suc_cases[of env c rid sr I w r n])
    case (stopped w1 res1)
    with Suc.prems show ?thesis by simp
  next
    case threw
    with Suc.prems show ?thesis by simp
  next
    case (violated m0)
    with Suc.prems show ?thesis by simp
  next
    case (passed m0)
    with Suc.prems have "soakRounds env c rid (Some r) sr I n ?w2 = (Returned Continue, w')"
      by simp
    from Suc.IH[OF this] show ?thesis by (simp add: algebra_simps)
  qed
qed

lemma soakRounds_passing:
  assumes "getRelease rid (release_history w c) = Some r"
    and "release_state r = R_running"
    and "\<forall>k<n. \<exists>m. wallTimes env (length (telemetry_queries w) + k) = Some m
            \<and> passed (evaluateSLOs (parseSLOsFromPlan (slos (plan_record r))) m)"
  shows "fst (soakRounds env c rid (Some r) sr I n w) = Returned Continue"
  using assms
proof (induction n arbitrary: w)
  case 0
  then show ?case by simp
next
  case (Suc n)
  let ?q = "(clock w + 1000 * int (nat I) - I * 1000, clock w + 1000 * int (nat I))"
  let ?w2 = "w\<lparr>clock := clock w + 1000 * int (nat I),
                telemetry_queries := telemetry_queries w @ [?q]\<rparr>"
  from Suc.prems(3) obtain m where
    m: "wallTimes env (length (telemetry_queries w)) = Some m"
       "passed (evaluateSLOs (parseSLOsFromPlan (slos (plan_record r))) m)"
    by force
  show ?case
  proof (cases rule: soakRounds_Suc_cases[of env c rid sr I w r n])
    case (stopped w1 res1)
    with checkCancellation_running[OF Suc.prems(1,2), of env sr "nat I"]
    show ?thesis by simp
  next
    case threw
    with m show ?thesis by simp
  next
    case (violated m0)
    with m show ?thesis by simp
  next
    case (passed m0)
    have "\<forall>k<n. \<exists>m. wallTimes env (length (telemetry_queries ?w2) + k) = Some m
            \<and> passed (evaluateSLOs (parseSLOsFromPlan (slos (plan_record r))) m)"
    proof (intro allI impI)
      fix k assume "k < n"
      then have "Suc k < Suc n" by simp
      from Suc.prems(3)[rule_format, OF this]
      show "\<exists>m. wallTimes env (length (telemetry_queries ?w2) + k) = Some m
            \<and> passed (evaluateSLOs (parseSLOsFromPlan (slos (plan_record r))) m)"
        by simp
    qed
    moreover have "getRelease rid (release_history ?w2 c) = Some r"
      using Suc.prems(1) by simp
    ultimately have "fst (soakRounds env c rid (Some r) sr I n ?w2) = Returned Continue"
      using Suc.IH Suc.prems(2) by blast
    with passed(3) show ?thesis by simp
  qed
qed

lemma bad_forces_aux:
  "main (stage_storage w sid) = Some d \<Longrightarrow>
     \<exists>d'. main (stage_storage (updateStagesStateBad rid ss s False w) sid) = Some d'
          \<and> stage_state d' =
              (if sid \<in> (\<lambda>p. getStageId rid (order p)) ` set ss then s else stage_state d)"
proof (induction ss arbitrary: w d)
  case Nil
  then show ?case by simp
next
  case (Cons p ss)
  let ?sid = "getStageId rid (order p)"
  let ?w1 = "(case StageStorage_get (stage_storage w ?sid) of
                 None \<Rightarrow> w
               | Some d \<Rightarrow>
                   if \<not> False \<or> \<not> stage_done (stage_state d)
                   then stage_updateStageState ?sid s w
                   else w)"
  have step: "updateStagesStateBad rid (p # ss) s False w = updateStagesStateBad rid ss s False ?w1"
    by (simp add: Let_def)
  show ?case
  proof (cases "sid = ?sid")
    case True
    then have w1: "?w1 = stage_updateStageState sid s w"
      using Cons.prems by (simp add: StageStorage_get_def)
    from stage_update_sets[OF Cons.prems, of s] obtain d' where
      d': "main (stage_storage ?w1 sid) = Some d'" "stage_state d' = s"
      using w1 by auto
    from Cons.IH[OF d'(1)] d'(2) True show ?thesis
      unfolding step by auto
  next
    case False
    then have same: "main (stage_storage ?w1 sid) = Some d"
      using Cons.prems by (auto simp: stage_update_other split: option.splits)
    from Cons.IH[OF same] False show ?thesis
      unfolding step by auto
  qed
qed








lemma scenario_release_found:
  "getRelease ''ab12cd34'' (release_history scenario_world ''conn'') = Some scenario_release"
  by (simp add: scenario_world_def scenario_release_def getRelease_def)

lemma fraction_release_found:
  "getRelease ''ab12cd34'' (release_history fraction_world ''conn'') = Some fraction_release"
  by (simp add: fraction_world_def fraction_release_def scenario_release_def getRelease_def)

lemma map_same_replicate:
  "\<forall>x \<in> set xs. f x = c \<Longrightarrow> map f xs = replicate (length xs) c"
  by (induction xs) simp_all

lemma sorted_wrt_replicate: "P y y \<Longrightarrow> sorted_wrt P (replicate n y)"
  by (induction n) simp_all

lemma updateStage_logs_eq:
  "main st = Some d \<Longrightarrow>
     updateStage now (logs_update l) st = (Some (d\<lparr>stage_logs := l\<rparr>), st\<lparr>main := Some (d\<lparr>stage_logs := l\<rparr>)\<rparr>)"
  by (simp add: updateStage_def StageStorage_get_def Let_def spread_def logs_update_def save_def)

lemma updateStageState_stored:
  assumes "main st = Some stage"
  shows "\<exists>l. main (snd (updateStageState now s logs st)) =
           Some ((fst (Stage_handleStateTransition now stage s st))\<lparr>stage_logs := l\<rparr>)"
proof -
  obtain u st1 where t: "Stage_handleStateTransition now stage s st = (u, st1)"
    by (cases "Stage_handleStateTransition now stage s st")
  let ?u = "u\<lparr>stage_logs := (case logs of Some l \<Rightarrow> if l = [] then stage_logs stage else l
                  | None \<Rightarrow> stage_logs stage)\<rparr>"
  have sv: "main (save ?u st1) = Some ?u" by (simp add: save_def)
  show ?thesis
  proof (cases "getVerboseStateMessage s (stage_state stage)")
    case None
    then show ?thesis using assms t
      by (auto simp: updateStageState_def StageStorage_get_def save_def Let_def)
  next
    case (Some msg)
    have "main (snd (addLog_continue now stage msg (save ?u st1))) =
            Some (?u\<lparr>stage_logs := stage_logs stage @ [(now, msg)]\<rparr>)"
      using updateStage_logs_eq[OF sv] by (simp add: addLog_continue_def Let_def)
    then show ?thesis using assms t Some
      by (auto simp: updateStageState_def StageStorage_get_def Let_def)
  qed
qed

lemma stage_completion_stamped:
  assumes "main st = Some stage"
    and "stage_state stage = S_running \<or> stage_state stage = S_awaiting_approval"
    and "s = S_done_successful \<or> s = S_done_failed"
    and "stage_time_started stage = Some started"
  shows "\<exists>d. main (snd (updateStageState now s logs st)) = Some d
           \<and> stage_state d = s
           \<and> stage_time_done d = Some now
           \<and> stage_time_elapsed d = (now - started) div 1000"
proof -
  from updateStageState_stored[OF assms(1), of now s logs] obtain l where
    "main (snd (updateStageState now s logs st)) =
           Some ((fst (Stage_handleStateTransition now stage s st))\<lparr>stage_logs := l\<rparr>)" by blast
  then show ?thesis using assms(2,3,4)
    by (auto simp: Stage_handleStateTransition_def calculateElapsedTime_def)
qed

lemma stage_cancellation_not_stamped:
  assumes "main st = Some stage"
    and "stage_state stage = S_running \<or> stage_state stage = S_awaiting_approval"
  shows "\<exists>d. main (snd (updateStageState now S_done_cancelled logs st)) = Some d
           \<and> stage_state d = S_done_cancelled
           \<and> stage_time_done d = stage_time_done stage
           \<and> stage_time_elapsed d = stage_time_elapsed stage"
proof -
  from updateStageState_stored[OF assms(1), of now S_done_cancelled logs] obtain l where
    "main (snd (updateStageState now S_done_cancelled logs st)) =
       Some ((fst (Stage_handleStateTransition now stage S_done_cancelled st))\<lparr>stage_logs := l\<rparr>)"
    by blast
  then show ?thesis using assms(2)
    by (auto simp: Stage_handleStateTransition_def)
qed

lemma removeRelease_eq:
  "removeRelease rid h =
     (if \<exists>r \<in> set (releases h). release_id r = rid
      then (True, h\<lparr>releases := filter (\<lambda>r. release_id r \<noteq> rid) (releases h)\<rparr>)
      else (False, h))"
proof -
  let ?f = "filter (\<lambda>r. release_id r \<noteq> rid) (releases h)"
  have "length ?f < length (releases h) \<longleftrightarrow> (\<exists>r \<in> set (releases h). release_id r = rid)"
    by (metis (mono_tags, lifting) filter_True length_filter_le length_filter_less
          nat_less_le)
  then show ?thesis by (simp add: removeRelease_def Let_def)
qed

lemma floor_rounds_cover:
  fixes soak :: rat and interval :: int
  assumes "0 < soak" and "1 \<le> interval" and "rounds = nat \<lfloor>soak / of_int interval\<rfloor>"
  shows "of_int (interval * int rounds) \<le> soak
       \<and> soak - of_int (interval * int rounds) < of_int interval"
proof -
  have ip: "(0::rat) < of_int interval" using assms(2) by simp
  have "0 \<le> soak / of_int interval" using assms(1) ip by simp
  then have nn: "0 \<le> \<lfloor>soak / of_int interval\<rfloor>" by simp
  then have r: "int rounds = \<lfloor>soak / of_int interval\<rfloor>" using assms(3) by simp
  have le: "of_int (int rounds) \<le> soak / of_int interval" unfolding r by simp
  have lt: "soak / of_int interval < of_int (int rounds) + 1" unfolding r by linarith
  from le ip have 1: "of_int (int rounds) * of_int interval \<le> soak"
    by (simp add: pos_le_divide_eq)
  from lt ip have 2: "soak < (of_int (int rounds) + 1) * of_int interval"
    by (simp add: pos_divide_less_eq)
  from 1 2 show ?thesis by (simp add: algebra_simps)
qed

lemma started_world_release:
  "getRelease ''ab12cd34'' (release_history started_world ''conn'') = Some scenario_release"
  by (simp add: started_world_def setDeploymentTarget_def deploy_def Let_def stage_update_frame
        queued_world_def scenario_release_found)

lemma started_world_stage:
  "\<exists>d. main (stage_storage started_world (StageId ''ab12cd34'' 1)) = Some d"
proof -
  have "main (stage_storage queued_world (StageId ''ab12cd34'' 1)) = Some (scenario_stage 1 S_queued)"
    by (simp add: queued_world_def)
  from stage_update_sets[OF this, of S_running] show ?thesis
    by (auto simp: started_world_def setDeploymentTarget_def deploy_def Let_def)
qed

lemma started_world_stage2:
  "main (stage_storage started_world (StageId ''ab12cd34'' 2)) = Some (scenario_stage 2 S_queued)"
  by (simp add: started_world_def setDeploymentTarget_def deploy_def Let_def stage_update_other
        queued_world_def scenario_world_def)

lemma started_world_start:
  "setDeploymentTarget (scenario_env 150) ''ab12cd34'' 10 ''v1'' ''v2''
     (stage_updateStageState (StageId ''ab12cd34'' 1) S_running queued_world)
   = (Returned (), started_world)"
  by (simp add: started_world_def setDeploymentTarget_def deploy_def Let_def scenario_env_def)

lemma started_world_queries:
  "telemetry_queries started_world = []"
  by (simp add: started_world_def setDeploymentTarget_def deploy_def Let_def stage_update_frame
        queued_world_def scenario_world_def)

lemma started_soak_polls:
  "length (telemetry_queries (snd (processStageSoak (scenario_env 150) ''conn'' ''ab12cd34''
     \<lparr>ref_id = StageId ''ab12cd34'' 1, ref_order = 1\<rparr>
     \<lparr>order = 1, description = [], target_percent = 10, soak_time = 60, auto_progress = False\<rparr>
     started_world))) = 1"
  by code_simp

lemma staged_delete_ok:
  "fst (delete_release_active ''conn'' staged_world) = Ok_200 ''Release deleted''"
  by code_simp




section \<open>The claims\<close>

text \<open>
  C1. Take a release that is in the history and a stage of it with a stored record, and
  let the stage soak. If a telemetry answer obtained during this soak violates a
  configured SLO, so that the evaluation of its round fails, then the soak returns
  \<open>exit\<close>; the stage is stored as \<open>done_failed\<close>; every plan stage of strictly
  greater order is stored as \<open>done_cancelled\<close> unless its record was in a \<open>done_\<close>
  state already, which it keeps; the release is stored as \<open>done_failed_slo\<close>; and
  \<open>processStages\<close>, whatever stages remain after this one, returns with the world as
  the soak left it, so that no further stage is processed.
\<close>

theorem C1_slo_violation:
  assumes "getRelease releaseId (release_history w connectionId) = Some release"
    and "ref_id stageRef = getStageId releaseId (ref_order stageRef)"
    and "main (stage_storage w (ref_id stageRef)) = Some stage"
    and "processStageSoak env connectionId releaseId stageRef stagePlan w = (result, w')"
    and "length (telemetry_queries w) \<le> k" and "k < length (telemetry_queries w')"
    and "wallTimes env k = Some metrics"
    and "\<not> passed (evaluateSLOs (parseSLOsFromPlan (slos (plan_record release))) metrics)"
  shows "result = Returned Exit
     \<and> (\<exists>d. main (stage_storage w' (ref_id stageRef)) = Some d \<and> stage_state d = S_done_failed)
     \<and> (\<forall>s \<in> set (stages (plan_record release)). order s > ref_order stageRef \<longrightarrow>
          (\<forall>d0. main (stage_storage w (getStageId releaseId (order s))) = Some d0 \<longrightarrow>
             (\<exists>d1. main (stage_storage w' (getStageId releaseId (order s))) = Some d1
                  \<and> stage_state d1 =
                      (if stage_done (stage_state d0) then stage_state d0
                       else S_done_cancelled))))
     \<and> (\<exists>r'. getRelease releaseId (release_history w' connectionId) = Some r'
            \<and> release_state r' = R_done_failed_slo)
     \<and> (\<forall>w0 rel rest.
           find (\<lambda>s. order s = ref_order stageRef) (stages (plan_record rel)) = Some stagePlan
           \<and> setDeploymentTarget env releaseId (target_percent stagePlan) (old_version rel)
                (new_version rel) (stage_updateStageState (ref_id stageRef) S_running w0)
               = (Returned (), w)
           \<longrightarrow> processStagesLoop env connectionId releaseId rel (stageRef # rest) w0
                 = (Returned (), w'))"
proof -
  let ?I = "intervalTimeSeconds_of (soak_time stagePlan) (pollingFraction_of (Some release))"
  let ?N = "soak_round_count (soak_time stagePlan) ?I"
  have run: "soakRounds env connectionId releaseId (Some release) stageRef ?I ?N w = (result, w')"
    using assms(1,4) by (simp add: processStageSoak_def Let_def)
  from soakRounds_violation[OF assms(1,3,2) run assms(5,6,7,8)]
  have ex: "result = Returned Exit"
    and vh: "violation_handled connectionId releaseId release stageRef (stage_storage w) w'"
    by simp_all
  have loop: "\<forall>w0 rel rest.
           find (\<lambda>s. order s = ref_order stageRef) (stages (plan_record rel)) = Some stagePlan
           \<and> setDeploymentTarget env releaseId (target_percent stagePlan) (old_version rel)
                (new_version rel) (stage_updateStageState (ref_id stageRef) S_running w0)
               = (Returned (), w)
           \<longrightarrow> processStagesLoop env connectionId releaseId rel (stageRef # rest) w0
                 = (Returned (), w')"
    using assms(4) ex by (simp add: Let_def)
  from ex vh loop show ?thesis
    unfolding violation_handled_def by blast
qed

theorem C1_slo_violation_witness:
  "processStagesLoop (scenario_env 150) ''conn'' ''ab12cd34'' scenario_release
       [\<lparr>ref_id = StageId ''ab12cd34'' 1, ref_order = 1\<rparr>,
        \<lparr>ref_id = StageId ''ab12cd34'' 2, ref_order = 2\<rparr>] queued_world
     = (Returned (),
        snd (processStageSoak (scenario_env 150) ''conn'' ''ab12cd34''
               \<lparr>ref_id = StageId ''ab12cd34'' 1, ref_order = 1\<rparr>
               \<lparr>order = 1, description = [], target_percent = 10, soak_time = 60,
                 auto_progress = False\<rparr> started_world))
   \<and> fst (processStageSoak (scenario_env 150) ''conn'' ''ab12cd34''
          \<lparr>ref_id = StageId ''ab12cd34'' 1, ref_order = 1\<rparr>
          \<lparr>order = 1, description = [], target_percent = 10, soak_time = 60,
            auto_progress = False\<rparr> started_world) = Returned Exit
   \<and> (\<exists>d. main (stage_storage
              (snd (processStageSoak (scenario_env 150) ''conn'' ''ab12cd34''
                 \<lparr>ref_id = StageId ''ab12cd34'' 1, ref_order = 1\<rparr>
                 \<lparr>order = 1, description = [], target_percent = 10, soak_time = 60,
                   auto_progress = False\<rparr> started_world))
              (StageId ''ab12cd34'' 1)) = Some d \<and> stage_state d = S_done_failed)
   \<and> (\<exists>d. main (stage_storage
              (snd (processStageSoak (scenario_env 150) ''conn'' ''ab12cd34''
                 \<lparr>ref_id = StageId ''ab12cd34'' 1, ref_order = 1\<rparr>
                 \<lparr>order = 1, description = [], target_percent = 10, soak_time = 60,
                   auto_progress = False\<rparr> started_world))
              (StageId ''ab12cd34'' 2)) = Some d \<and> stage_state d = S_done_cancelled)
   \<and> (\<exists>r'. getRelease ''ab12cd34''
              (release_history
                (snd (processStageSoak (scenario_env 150) ''conn'' ''ab12cd34''
                   \<lparr>ref_id = StageId ''ab12cd34'' 1, ref_order = 1\<rparr>
                   \<lparr>order = 1, description = [], target_percent = 10, soak_time = 60,
                     auto_progress = False\<rparr> started_world)) ''conn'') = Some r'
          \<and> release_state r' = R_done_failed_slo)"
proof -
  let ?sr = "\<lparr>ref_id = StageId ''ab12cd34'' 1, ref_order = 1\<rparr>"
  let ?sr2 = "\<lparr>ref_id = StageId ''ab12cd34'' 2, ref_order = 2\<rparr>"
  let ?sp = "\<lparr>order = 1, description = [], target_percent = 10, soak_time = 60,
              auto_progress = False\<rparr>"
  let ?X = "processStageSoak (scenario_env 150) ''conn'' ''ab12cd34'' ?sr ?sp started_world"
  let ?m = "\<lparr>p999 = 200, p99 = 150, p90 = 50, median = 10\<rparr>"
  have h2: "ref_id ?sr = getStageId ''ab12cd34'' (ref_order ?sr)"
    by (simp add: getStageId_def)
  from started_world_stage obtain d where
    h3: "main (stage_storage started_world (ref_id ?sr)) = Some d" by auto
  have h4: "?X = (fst ?X, snd ?X)" by simp
  have h5: "length (telemetry_queries started_world) \<le> 0"
    by (simp add: started_world_queries)
  have h6: "0 < length (telemetry_queries (snd ?X))"
    using started_soak_polls by simp
  have h7: "wallTimes (scenario_env 150) 0 = Some ?m"
    by (simp add: scenario_env_def)
  have h8: "\<not> passed (evaluateSLOs (parseSLOsFromPlan (slos (plan_record scenario_release))) ?m)"
    by (simp add: scenario_release_def scenario_plan_def percentile_of_name_def
          evaluateSLOs_def Let_def)
  have s2: "\<lparr>order = 2, description = [], target_percent = 100, soak_time = 60,
             auto_progress = True\<rparr> \<in> set (stages (plan_record scenario_release))"
    by (simp add: scenario_release_def scenario_plan_def)
  have d0: "main (stage_storage started_world (getStageId ''ab12cd34'' 2))
              = Some (scenario_stage 2 S_queued)"
    by (simp add: started_world_stage2 getStageId_def)
  have f: "find (\<lambda>s. order s = ref_order ?sr) (stages (plan_record scenario_release)) = Some ?sp"
    by (simp add: scenario_release_def scenario_plan_def)
  have st: "setDeploymentTarget (scenario_env 150) ''ab12cd34'' (target_percent ?sp)
              (old_version scenario_release) (new_version scenario_release)
              (stage_updateStageState (ref_id ?sr) S_running queued_world)
            = (Returned (), started_world)"
    using started_world_start by (simp add: scenario_release_def)
  note c1 = C1_slo_violation[OF started_world_release h2 h3 h4 h5 h6 h7 h8]
  from c1 f st have loop:
    "processStagesLoop (scenario_env 150) ''conn'' ''ab12cd34'' scenario_release
       (?sr # [?sr2]) queued_world = (Returned (), snd ?X)"
    by blast
  from c1 s2 d0 have rest:
    "fst ?X = Returned Exit
     \<and> (\<exists>d. main (stage_storage (snd ?X) (StageId ''ab12cd34'' 1)) = Some d
            \<and> stage_state d = S_done_failed)
     \<and> (\<exists>d. main (stage_storage (snd ?X) (StageId ''ab12cd34'' 2)) = Some d
            \<and> stage_state d = S_done_cancelled)
     \<and> (\<exists>r'. getRelease ''ab12cd34'' (release_history (snd ?X) ''conn'') = Some r'
          \<and> release_state r' = R_done_failed_slo)"
    by (auto simp: getStageId_def scenario_stage_def)
  from loop rest show ?thesis by simp
qed

text \<open>
  C2. \<open>evaluateSLOs\<close> passes iff no config's observed value at its percentile is strictly
  greater than its threshold; the violations are, in the order of the configs, one per
  config with observed > threshold, carrying the percentile, the threshold, the observed
  value and the margin observed - threshold, computed as the program computes it, by the
  subtraction of doubles (\<open>js_sub\<close>: the exact difference when the two are integers
  that differ by \<open>2^53\<close> at most, and within the relative error \<open>2^(-53)\<close> of it in the
  normal range). Threshold p999 = 100 against observed p999 = 150 fails with one
  violation of margin 50; against observed p999 = 80 it passes.
\<close>

theorem C2_evaluateSLOs:
  "(passed (evaluateSLOs cs m) \<longleftrightarrow>
      (\<forall>c \<in> set cs. \<not> getMetricValue m (percentile c) > latency_ms c))
   \<and> violations (evaluateSLOs cs m) =
       map (\<lambda>c. \<lparr>v_percentile = percentile c,
                 expected_max_ms = latency_ms c,
                 actual_ms = getMetricValue m (percentile c),
                 violation_margin_ms = js_sub (getMetricValue m (percentile c)) (latency_ms c)\<rparr>)
           (filter (\<lambda>c. getMetricValue m (percentile c) > latency_ms c) cs)
   \<and> evaluateSLOs [\<lparr>percentile = P999, latency_ms = 100\<rparr>]
         \<lparr>p999 = 150, p99 = a, p90 = b, median = c\<rparr> =
       \<lparr>passed = False,
        violations = [\<lparr>v_percentile = P999, expected_max_ms = 100, actual_ms = 150,
                       violation_margin_ms = 50\<rparr>]\<rparr>
   \<and> passed (evaluateSLOs [\<lparr>percentile = P999, latency_ms = 100\<rparr>]
         \<lparr>p999 = 80, p99 = a, p90 = b, median = c\<rparr>)"
proof -
  have v: "violated m = (\<lambda>c. getMetricValue m (percentile c) > latency_ms c)"
    by (rule ext) (simp add: violated_def)
  have w: "violation_of m = (\<lambda>c. \<lparr>v_percentile = percentile c,
                 expected_max_ms = latency_ms c,
                 actual_ms = getMetricValue m (percentile c),
                 violation_margin_ms = js_sub (getMetricValue m (percentile c)) (latency_ms c)\<rparr>)"
    by (rule ext) (simp add: violation_of_def)
  have 1: "passed (evaluateSLOs cs m) \<longleftrightarrow>
      (\<forall>c \<in> set cs. \<not> getMetricValue m (percentile c) > latency_ms c)"
    using evaluateSLOs_passed [of cs m] by (simp add: violated_def)
  have 2: "violations (evaluateSLOs cs m) =
       map (\<lambda>c. \<lparr>v_percentile = percentile c,
                 expected_max_ms = latency_ms c,
                 actual_ms = getMetricValue m (percentile c),
                 violation_margin_ms = js_sub (getMetricValue m (percentile c)) (latency_ms c)\<rparr>)
           (filter (\<lambda>c. getMetricValue m (percentile c) > latency_ms c) cs)"
    using evaluateSLOs_violations [of cs m] by (simp only: v w)
  have 3: "evaluateSLOs [\<lparr>percentile = P999, latency_ms = 100\<rparr>]
         \<lparr>p999 = 150, p99 = a, p90 = b, median = c\<rparr> =
       \<lparr>passed = False,
        violations = [\<lparr>v_percentile = P999, expected_max_ms = 100, actual_ms = 150,
                       violation_margin_ms = 50\<rparr>]\<rparr>"
    by (simp add: evaluateSLOs_def Let_def js_sub_150_100)
  have 4: "passed (evaluateSLOs [\<lparr>percentile = P999, latency_ms = 100\<rparr>]
         \<lparr>p999 = 80, p99 = a, p90 = b, median = c\<rparr>)"
    by (simp add: evaluateSLOs_def Let_def)
  from 1 2 3 4 show ?thesis by blast
qed

theorem C2_evaluateSLOs_witness:
  "passed (evaluateSLOs [\<lparr>percentile = P99, latency_ms = 100\<rparr>,
                         \<lparr>percentile = Median, latency_ms = 20\<rparr>]
             \<lparr>p999 = 300, p99 = 90, p90 = 50, median = 20\<rparr>)
   \<and> violations (evaluateSLOs [\<lparr>percentile = P99, latency_ms = 100\<rparr>,
                                \<lparr>percentile = Median, latency_ms = 20\<rparr>]
             \<lparr>p999 = 300, p99 = 150, p90 = 50, median = 21\<rparr>) =
       [\<lparr>v_percentile = P99, expected_max_ms = 100, actual_ms = 150,
          violation_margin_ms = 50\<rparr>,
        \<lparr>v_percentile = Median, expected_max_ms = 20, actual_ms = 21,
          violation_margin_ms = 1\<rparr>]
   \<and> violations (evaluateSLOs
         [\<lparr>percentile = P90, latency_ms = 3602879701896397 / 36028797018963968\<rparr>]
         \<lparr>p999 = 2000, p99 = 1500, p90 = 8796972631510221 / 8796093022208, median = 10\<rparr>) =
       [\<lparr>v_percentile = P90, expected_max_ms = 3602879701896397 / 36028797018963968,
          actual_ms = 8796972631510221 / 8796093022208, violation_margin_ms = 1000\<rparr>]"
proof -
  have a: "passed (evaluateSLOs [\<lparr>percentile = P99, latency_ms = 100\<rparr>,
                         \<lparr>percentile = Median, latency_ms = 20\<rparr>]
             \<lparr>p999 = 300, p99 = 90, p90 = 50, median = 20\<rparr>)"
    using C2_evaluateSLOs [of "[\<lparr>percentile = P99, latency_ms = 100\<rparr>,
                         \<lparr>percentile = Median, latency_ms = 20\<rparr>]"
             "\<lparr>p999 = 300, p99 = 90, p90 = 50, median = 20\<rparr>"]
    by simp
  have b: "violations (evaluateSLOs [\<lparr>percentile = P99, latency_ms = 100\<rparr>,
                                \<lparr>percentile = Median, latency_ms = 20\<rparr>]
             \<lparr>p999 = 300, p99 = 150, p90 = 50, median = 21\<rparr>) =
       [\<lparr>v_percentile = P99, expected_max_ms = 100, actual_ms = 150,
          violation_margin_ms = 50\<rparr>,
        \<lparr>v_percentile = Median, expected_max_ms = 20, actual_ms = 21,
          violation_margin_ms = 1\<rparr>]"
    using C2_evaluateSLOs [of "[\<lparr>percentile = P99, latency_ms = 100\<rparr>,
                         \<lparr>percentile = Median, latency_ms = 20\<rparr>]"
             "\<lparr>p999 = 300, p99 = 150, p90 = 50, median = 21\<rparr>"]
    by (simp add: js_sub_150_100 js_sub_21_20)
  have c: "violations (evaluateSLOs
         [\<lparr>percentile = P90, latency_ms = 3602879701896397 / 36028797018963968\<rparr>]
         \<lparr>p999 = 2000, p99 = 1500, p90 = 8796972631510221 / 8796093022208, median = 10\<rparr>) =
       [\<lparr>v_percentile = P90, expected_max_ms = 3602879701896397 / 36028797018963968,
          actual_ms = 8796972631510221 / 8796093022208, violation_margin_ms = 1000\<rparr>]"
    using C2_evaluateSLOs [of
             "[\<lparr>percentile = P90, latency_ms = 3602879701896397 / 36028797018963968\<rparr>]"
             "\<lparr>p999 = 2000, p99 = 1500, p90 = 8796972631510221 / 8796093022208,
               median = 10\<rparr>"]
    by (simp add: js_sub_doubles)
  from a b c show ?thesis by blast
qed

text \<open>
  C3, as amended. \<open>updateStageState\<close> and \<open>updateReleaseState\<close> do not look for a
  terminal state. Applied to a terminal stage or release with the state it already has
  (and no log argument), they leave the stored object unchanged; applied with another
  state they overwrite the stored state. The workflow's \<open>updateStagesStateBad\<close> is what
  skips a stage that is in a \<open>done_\<close> state (or has no record), when it is called with
  \<open>excludeCompleted = true\<close>; with \<open>excludeCompleted = false\<close> it brings every listed
  stage that has a record to the target state.
\<close>

theorem C3_terminal_transitions:
  "(main st = Some stage \<and> stage_done (stage_state stage)
      \<longrightarrow> updateStageState now (stage_state stage) None st = (Some stage, st))
   \<and> (main st = Some stage
      \<longrightarrow> (\<exists>d. main (snd (updateStageState now s logs st)) = Some d \<and> stage_state d = s))
   \<and> (findReleaseIndex rid h = Some i
       \<and> release_state (releases h ! i) \<noteq> R_not_started
       \<and> release_state (releases h ! i) \<noteq> R_running
      \<longrightarrow> updateReleaseState now rid (release_state (releases h ! i)) h = (True, h))
   \<and> (findReleaseIndex rid h = Some i
      \<longrightarrow> release_state (releases (snd (updateReleaseState now rid rs h)) ! i) = rs)
   \<and> ((case main (stage_storage w sid) of None \<Rightarrow> True | Some d \<Rightarrow> stage_done (stage_state d))
      \<longrightarrow> stage_storage (updateStagesStateBad releaseId planStages target True w) sid
            = stage_storage w sid)
   \<and> (sid \<in> (\<lambda>p. getStageId releaseId (order p)) ` set planStages
       \<and> main (stage_storage w sid) = Some d0
      \<longrightarrow> (\<exists>d. main (stage_storage
                      (updateStagesStateBad releaseId planStages target False w) sid) = Some d
               \<and> stage_state d = target))"
proof -
  have 1: "main st = Some stage \<and> stage_done (stage_state stage)
      \<longrightarrow> updateStageState now (stage_state stage) None st = (Some stage, st)"
    using updateStageState_same_terminal by blast
  have 2: "main st = Some stage
      \<longrightarrow> (\<exists>d. main (snd (updateStageState now s logs st)) = Some d \<and> stage_state d = s)"
    using updateStageState_sets_state by blast
  have 3: "findReleaseIndex rid h = Some i
       \<and> release_state (releases h ! i) \<noteq> R_not_started
       \<and> release_state (releases h ! i) \<noteq> R_running
      \<longrightarrow> updateReleaseState now rid (release_state (releases h ! i)) h = (True, h)"
    using updateReleaseState_same_terminal by blast
  have 4: "findReleaseIndex rid h = Some i
      \<longrightarrow> release_state (releases (snd (updateReleaseState now rid rs h)) ! i) = rs"
    using updateReleaseState_overwrites by blast
  have 5: "(case main (stage_storage w sid) of None \<Rightarrow> True | Some d \<Rightarrow> stage_done (stage_state d))
      \<longrightarrow> stage_storage (updateStagesStateBad releaseId planStages target True w) sid
            = stage_storage w sid"
    using bad_skips[of w sid releaseId planStages target] by (simp add: settled_def)
  have 6: "sid \<in> (\<lambda>p. getStageId releaseId (order p)) ` set planStages
       \<and> main (stage_storage w sid) = Some d0
      \<longrightarrow> (\<exists>d. main (stage_storage
                      (updateStagesStateBad releaseId planStages target False w) sid) = Some d
               \<and> stage_state d = target)"
    using bad_forces_aux[of w sid d0 releaseId planStages target] by auto
  from 1 2 3 4 5 6 show ?thesis by blast
qed

theorem C3_terminal_transitions_witness:
  "updateStageState 90000 S_done_failed None
      \<lparr>main = Some (scenario_stage 1 S_done_failed), alarm = None\<rparr>
     = (Some (scenario_stage 1 S_done_failed),
        \<lparr>main = Some (scenario_stage 1 S_done_failed), alarm = None\<rparr>)
   \<and> (\<exists>d. main (snd (updateStageState 90000 S_done_cancelled None
                \<lparr>main = Some (scenario_stage 1 S_done_failed), alarm = None\<rparr>)) = Some d
          \<and> stage_state d = S_done_cancelled)
   \<and> updateReleaseState 90000 ''ab12cd34'' R_done_failed_slo
        \<lparr>releases = [scenario_release\<lparr>release_state := R_done_failed_slo\<rparr>],
         history_alarm = None\<rparr>
     = (True, \<lparr>releases = [scenario_release\<lparr>release_state := R_done_failed_slo\<rparr>],
               history_alarm = None\<rparr>)
   \<and> release_state (releases (snd (updateReleaseState 90000 ''ab12cd34'' R_error
        \<lparr>releases = [scenario_release\<lparr>release_state := R_done_failed_slo\<rparr>],
         history_alarm = None\<rparr>)) ! 0) = R_error
   \<and> stage_storage (updateStagesStateBad ''ab12cd34'' (stages scenario_plan) S_done_cancelled
                      True done_world) (StageId ''ab12cd34'' 1)
     = \<lparr>main = Some (scenario_stage 1 S_done_successful), alarm = None\<rparr>
   \<and> (\<exists>d. main (stage_storage (updateStagesStateBad ''ab12cd34'' (stages scenario_plan)
                      S_done_cancelled False done_world) (StageId ''ab12cd34'' 1)) = Some d
          \<and> stage_state d = S_done_cancelled)"
proof -
  let ?st = "\<lparr>main = Some (scenario_stage 1 S_done_failed), alarm = None\<rparr>"
  let ?h = "\<lparr>releases = [scenario_release\<lparr>release_state := R_done_failed_slo\<rparr>],
            history_alarm = None\<rparr>"
  have a: "main ?st = Some (scenario_stage 1 S_done_failed)
           \<and> stage_done (stage_state (scenario_stage 1 S_done_failed))"
    by (simp add: scenario_stage_def)
  have a': "main ?st = Some (scenario_stage 1 S_done_failed)" by simp
  have b: "findReleaseIndex ''ab12cd34'' ?h = Some 0
       \<and> release_state (releases ?h ! 0) \<noteq> R_not_started
       \<and> release_state (releases ?h ! 0) \<noteq> R_running"
    by (simp add: findReleaseIndex_def scenario_release_def)
  have b': "findReleaseIndex ''ab12cd34'' ?h = Some 0"
    by (simp add: findReleaseIndex_def scenario_release_def)
  have c: "(case main (stage_storage done_world (StageId ''ab12cd34'' 1)) of None \<Rightarrow> True
            | Some d \<Rightarrow> stage_done (stage_state d))"
    by (simp add: done_world_def scenario_stage_def)
  have e: "StageId ''ab12cd34'' 1 \<in> (\<lambda>p. getStageId ''ab12cd34'' (order p)) ` set (stages scenario_plan)
       \<and> main (stage_storage done_world (StageId ''ab12cd34'' 1))
           = Some (scenario_stage 1 S_done_successful)"
    by (simp add: done_world_def scenario_plan_def getStageId_def)
  have s: "stage_state (scenario_stage 1 S_done_failed) = S_done_failed"
    by (simp add: scenario_stage_def)
  have r: "release_state (releases ?h ! 0) = R_done_failed_slo" by simp
  have d: "stage_storage done_world (StageId ''ab12cd34'' 1)
      = \<lparr>main = Some (scenario_stage 1 S_done_successful), alarm = None\<rparr>"
    by (simp add: done_world_def)
  from C3_terminal_transitions[of ?st "scenario_stage 1 S_done_failed" 90000 S_done_cancelled None
         "''ab12cd34''" ?h 0 R_error done_world "StageId ''ab12cd34'' 1"
         "''ab12cd34''" "stages scenario_plan" S_done_cancelled
         "scenario_stage 1 S_done_successful"]
       a a' b b' c e
  show ?thesis unfolding s r d by blast
qed

text \<open>
  The claim as stated fails: a stage stored as \<open>done_failed\<close> is stored as
  \<open>done_successful\<close> after \<open>updateStageState("done_successful")\<close>, which is also what
  \<open>progressStage("approve")\<close> does to it, and a release stored as
  \<open>done_stopped_manually\<close> is stored as \<open>done_successful\<close> after
  \<open>updateReleaseState(id, "done_successful")\<close>.
\<close>

theorem C3_counterexample:
  "map_option stage_state
     (main (snd (updateStageState 90000 S_done_successful None
        \<lparr>main = Some (scenario_stage 1 S_done_failed), alarm = None\<rparr>)))
     = Some S_done_successful
   \<and> map_option stage_state
     (main (snd (progressStage 90000 Approve
        \<lparr>main = Some (scenario_stage 1 S_done_failed), alarm = None\<rparr>)))
     = Some S_done_successful
   \<and> map release_state
       (releases (snd (updateReleaseState 90000 ''ab12cd34'' R_done_successful
          \<lparr>releases = [scenario_release\<lparr>release_state := R_done_stopped_manually\<rparr>],
           history_alarm = None\<rparr>)))
     = [R_done_successful]"
  by code_simp







text \<open>
  C6. A stage awaiting approval, started at 1000 ms with 55 s on its counter, is denied at
  61000 ms: it is stored as \<open>done_cancelled\<close> with \<open>time_done\<close> still unset and
  \<open>time_elapsed\<close> still 55. The same holds for a running stage that is cancelled.
  Approved at the same time, the stage is stored as \<open>done_successful\<close> with
  \<open>time_done\<close> 61000 and \<open>time_elapsed\<close> 60: \<open>handleStateTransition\<close> stamps the
  completion for \<open>done_successful\<close> and \<open>done_failed\<close> only.
\<close>

theorem C6_deny_keeps_time_done_unset:
  "map_option (\<lambda>d. (stage_state d, stage_time_done d, stage_time_elapsed d))
     (main (snd (progressStage 61000 Deny
        \<lparr>main = Some \<lparr>stage_id = StageId ''ab12cd34'' 1, stage_order = 1,
                       stage_releaseId = ''ab12cd34'', stage_state = S_awaiting_approval,
                       stage_time_started = Some 1000, stage_time_elapsed = 55,
                       stage_time_done = None, stage_logs = []\<rparr>,
         alarm = None\<rparr>)))
     = Some (S_done_cancelled, None, 55)
   \<and> map_option (\<lambda>d. (stage_state d, stage_time_done d, stage_time_elapsed d))
     (main (snd (updateStageState 61000 S_done_cancelled None
        \<lparr>main = Some \<lparr>stage_id = StageId ''ab12cd34'' 1, stage_order = 1,
                       stage_releaseId = ''ab12cd34'', stage_state = S_running,
                       stage_time_started = Some 1000, stage_time_elapsed = 55,
                       stage_time_done = None, stage_logs = []\<rparr>,
         alarm = Some 61500\<rparr>)))
     = Some (S_done_cancelled, None, 55)
   \<and> map_option (\<lambda>d. (stage_state d, stage_time_done d, stage_time_elapsed d))
     (main (snd (progressStage 61000 Approve
        \<lparr>main = Some \<lparr>stage_id = StageId ''ab12cd34'' 1, stage_order = 1,
                       stage_releaseId = ''ab12cd34'', stage_state = S_awaiting_approval,
                       stage_time_started = Some 1000, stage_time_elapsed = 55,
                       stage_time_done = None, stage_logs = []\<rparr>,
         alarm = None\<rparr>)))
     = Some (S_done_successful, Some 61000, 60)"
  by code_simp

text \<open>
  C7. For a stage with a positive soak time, in a release whose plan has a polling
  fraction in (0, 1], let \<open>interval = max(1, floor(soak_time * polling_fraction))\<close> and
  \<open>rounds = floor(soak_time / interval)\<close>, the product and the quotient being those of
  the program, on doubles. The loop of the soak is set for \<open>rounds\<close> rounds of
  \<open>interval\<close> seconds: it polls telemetry at most \<open>rounds\<close> times, each time for the
  window of the last \<open>interval\<close> seconds; a soak that runs to its end (it returns
  \<open>continue\<close>) has polled exactly \<open>rounds\<close> times and slept \<open>rounds * interval\<close>
  seconds; and it does run to its end when the release is running and every answer
  satisfies the SLOs. For a soak time below \<open>2^53\<close> the interval is the one of the
  exact product or one second more (more when the product of the two doubles lies so
  close below an integer that it rounds to it, as 60 * 0.3 does); and for a soak time
  that is a double below \<open>2^53\<close> the quotient of doubles has the floor of the exact
  quotient, so the rounds cover the soak time up to a remainder shorter than one
  interval, which is not observed.
\<close>

theorem C7_soak_rounds:
  assumes "getRelease releaseId (release_history w connectionId) = Some release"
    and "0 < polling_fraction (plan_record release)"
    and "polling_fraction (plan_record release) \<le> 1"
    and "0 < soak_time stagePlan"
    and "interval =
           max 1 \<lfloor>js_mul (soak_time stagePlan) (polling_fraction (plan_record release))\<rfloor>"
    and "rounds = nat \<lfloor>js_div (soak_time stagePlan) (of_int interval)\<rfloor>"
    and "processStageSoak env connectionId releaseId stageRef stagePlan w = (result, w')"
  shows "(\<exists>new. telemetry_queries w' = telemetry_queries w @ new \<and> length new \<le> rounds
            \<and> (\<forall>q \<in> set new. snd q - fst q = interval * 1000))
     \<and> (result = Returned Continue \<longrightarrow>
           length (telemetry_queries w') = length (telemetry_queries w) + rounds
         \<and> clock w' = clock w + 1000 * interval * int rounds)
     \<and> (release_state release = R_running
         \<and> (\<forall>k<rounds. \<exists>m. wallTimes env (length (telemetry_queries w) + k) = Some m
               \<and> passed (evaluateSLOs (parseSLOsFromPlan (slos (plan_record release))) m))
         \<longrightarrow> result = Returned Continue)
     \<and> (soak_time stagePlan < 2 ^ 53
         \<longrightarrow> max 1 \<lfloor>soak_time stagePlan * polling_fraction (plan_record release)\<rfloor>
               \<le> interval
           \<and> interval
               \<le> max 1 \<lfloor>soak_time stagePlan * polling_fraction (plan_record release)\<rfloor> + 1)
     \<and> (round_double (soak_time stagePlan) = soak_time stagePlan
         \<and> soak_time stagePlan < 2 ^ 53
         \<longrightarrow> int rounds = \<lfloor>soak_time stagePlan / of_int interval\<rfloor>
           \<and> of_int (interval * int rounds) \<le> soak_time stagePlan
           \<and> soak_time stagePlan - of_int (interval * int rounds) < of_int interval)"
proof -
  have pf: "pollingFraction_of (Some release) = polling_fraction (plan_record release)"
    using assms(2) by (simp add: pollingFraction_of_def)
  have I: "intervalTimeSeconds_of (soak_time stagePlan) (pollingFraction_of (Some release))
             = interval"
    using assms(5) pf by (simp add: intervalTimeSeconds_of_def)
  have N: "soak_round_count (soak_time stagePlan) interval = rounds"
    using assms(6) by (simp add: soak_round_count_def)
  have run: "soakRounds env connectionId releaseId (Some release) stageRef interval rounds w
               = (result, w')"
    using assms(1,7) I N by (simp add: processStageSoak_def Let_def)
  have ge: "1 \<le> interval" using assms(5) by simp
  then have pos: "int (nat interval) = interval" by simp
  have 1: "\<exists>new. telemetry_queries w' = telemetry_queries w @ new \<and> length new \<le> rounds
            \<and> (\<forall>q \<in> set new. snd q - fst q = interval * 1000)"
    using soakRounds_queries[of env connectionId releaseId release stageRef interval rounds w] run
    by simp
  have 2: "result = Returned Continue \<longrightarrow>
           length (telemetry_queries w') = length (telemetry_queries w) + rounds
         \<and> clock w' = clock w + 1000 * interval * int rounds"
    using soakRounds_Continue[of env connectionId releaseId release stageRef interval rounds w w']
      run pos by simp
  have 3: "release_state release = R_running
         \<and> (\<forall>k<rounds. \<exists>m. wallTimes env (length (telemetry_queries w) + k) = Some m
               \<and> passed (evaluateSLOs (parseSLOsFromPlan (slos (plan_record release))) m))
         \<longrightarrow> result = Returned Continue"
  proof (intro impI)
    assume a: "release_state release = R_running
         \<and> (\<forall>k<rounds. \<exists>m. wallTimes env (length (telemetry_queries w) + k) = Some m
               \<and> passed (evaluateSLOs (parseSLOsFromPlan (slos (plan_record release))) m))"
    from soakRounds_passing[OF assms(1) conjunct1[OF a] conjunct2[OF a],
           where sr = stageRef and I = interval] run
    show "result = Returned Continue" by simp
  qed
  have 4: "round_double (soak_time stagePlan) = soak_time stagePlan
         \<and> soak_time stagePlan < 2 ^ 53
         \<longrightarrow> int rounds = \<lfloor>soak_time stagePlan / of_int interval\<rfloor>
           \<and> of_int (interval * int rounds) \<le> soak_time stagePlan
           \<and> soak_time stagePlan - of_int (interval * int rounds) < of_int interval"
  proof (intro impI)
    assume d: "round_double (soak_time stagePlan) = soak_time stagePlan
         \<and> soak_time stagePlan < 2 ^ 53"
    have nn: "0 \<le> soak_time stagePlan" using assms(4) by simp
    have fl: "\<lfloor>js_div (soak_time stagePlan) (of_int interval)\<rfloor>
                = \<lfloor>soak_time stagePlan / of_int interval\<rfloor>"
      using js_div_floor[OF conjunct1[OF d] nn conjunct2[OF d] ge] .
    have r: "rounds = nat \<lfloor>soak_time stagePlan / of_int interval\<rfloor>"
      using assms(6) by (simp only: fl)
    have "0 \<le> soak_time stagePlan / of_int interval" using nn ge by simp
    then have "0 \<le> \<lfloor>soak_time stagePlan / of_int interval\<rfloor>" by simp
    then have e: "int rounds = \<lfloor>soak_time stagePlan / of_int interval\<rfloor>"
      using r by simp
    from e floor_rounds_cover[OF assms(4) ge r]
    show "int rounds = \<lfloor>soak_time stagePlan / of_int interval\<rfloor>
           \<and> of_int (interval * int rounds) \<le> soak_time stagePlan
           \<and> soak_time stagePlan - of_int (interval * int rounds) < of_int interval"
      by (rule conjI)
  qed
  have 5: "soak_time stagePlan < 2 ^ 53
         \<longrightarrow> max 1 \<lfloor>soak_time stagePlan * polling_fraction (plan_record release)\<rfloor>
               \<le> interval
           \<and> interval
               \<le> max 1 \<lfloor>soak_time stagePlan * polling_fraction (plan_record release)\<rfloor> + 1"
  proof (intro impI)
    assume lt: "soak_time stagePlan < 2 ^ 53"
    let ?x = "soak_time stagePlan * polling_fraction (plan_record release)"
    have x0: "0 \<le> ?x" using assms(2,4) by simp
    have "?x \<le> soak_time stagePlan * 1"
      using assms(3,4) by (intro mult_left_mono) simp_all
    then have x53: "?x < 2 ^ 53" using lt by simp
    have i: "interval = max 1 \<lfloor>round_double ?x\<rfloor>"
      using assms(5) by (simp only: js_mul_def)
    from floor_round_double[OF x0 x53]
    show "max 1 \<lfloor>?x\<rfloor> \<le> interval \<and> interval \<le> max 1 \<lfloor>?x\<rfloor> + 1"
      unfolding i by linarith
  qed
  from 1 2 3 5 4 show ?thesis by blast
qed

theorem C7_soak_rounds_witness:
  "fst (processStageSoak (scenario_env 90) ''conn'' ''ab12cd34''
          \<lparr>ref_id = StageId ''ab12cd34'' 1, ref_order = 1\<rparr>
          \<lparr>order = 1, description = [], target_percent = 10, soak_time = 60,
            auto_progress = False\<rparr> fraction_world) = Returned Continue
   \<and> length (telemetry_queries
        (snd (processStageSoak (scenario_env 90) ''conn'' ''ab12cd34''
          \<lparr>ref_id = StageId ''ab12cd34'' 1, ref_order = 1\<rparr>
          \<lparr>order = 1, description = [], target_percent = 10, soak_time = 60,
            auto_progress = False\<rparr> fraction_world))) = 3
   \<and> clock
        (snd (processStageSoak (scenario_env 90) ''conn'' ''ab12cd34''
          \<lparr>ref_id = StageId ''ab12cd34'' 1, ref_order = 1\<rparr>
          \<lparr>order = 1, description = [], target_percent = 10, soak_time = 60,
            auto_progress = False\<rparr> fraction_world)) = 54000
   \<and> map (\<lambda>q. snd q - fst q) (telemetry_queries
        (snd (processStageSoak (scenario_env 90) ''conn'' ''ab12cd34''
          \<lparr>ref_id = StageId ''ab12cd34'' 1, ref_order = 1\<rparr>
          \<lparr>order = 1, description = [], target_percent = 10, soak_time = 60,
            auto_progress = False\<rparr> fraction_world))) = [18000, 18000, 18000]"
proof -
  let ?sr = "\<lparr>ref_id = StageId ''ab12cd34'' 1, ref_order = 1\<rparr>"
  let ?sp = "\<lparr>order = 1, description = [], target_percent = 10, soak_time = 60,
              auto_progress = False\<rparr>"
  let ?X = "processStageSoak (scenario_env 90) ''conn'' ''ab12cd34'' ?sr ?sp fraction_world"
  have h2: "0 < polling_fraction (plan_record fraction_release)"
    by (simp add: fraction_release_def)
  have h3: "polling_fraction (plan_record fraction_release) \<le> 1"
    by (simp add: fraction_release_def)
  have h4: "0 < soak_time ?sp" by simp
  have h5: "(18::int) =
      max 1 \<lfloor>js_mul (soak_time ?sp) (polling_fraction (plan_record fraction_release))\<rfloor>"
    using js_mul_60_03 by (simp add: fraction_release_def)
  have h6: "(3::nat) = nat \<lfloor>js_div (soak_time ?sp) (of_int (18::int))\<rfloor>"
    using js_div_60_18 by simp
  have h7: "?X = (fst ?X, snd ?X)" by simp
  have run: "release_state fraction_release = R_running"
    by (simp add: fraction_release_def scenario_release_def)
  have ok: "\<forall>k<3. \<exists>m. wallTimes (scenario_env 90)
                 (length (telemetry_queries fraction_world) + k) = Some m
               \<and> passed (evaluateSLOs
                    (parseSLOsFromPlan (slos (plan_record fraction_release))) m)"
    by (simp add: scenario_env_def fraction_release_def scenario_plan_def
          percentile_of_name_def evaluateSLOs_def Let_def)
  have t0: "telemetry_queries fraction_world = []" "clock fraction_world = 0"
    by (simp_all add: fraction_world_def scenario_world_def)
  from C7_soak_rounds[OF fraction_release_found h2 h3 h4 h5 h6 h7] run ok t0
  have r: "fst ?X = Returned Continue" and l: "length (telemetry_queries (snd ?X)) = 3"
    and c: "clock (snd ?X) = 54000"
    and b: "\<forall>q \<in> set (telemetry_queries (snd ?X)). snd q - fst q = 18000"
    by auto
  from map_same_replicate[OF b] l
  have "map (\<lambda>q. snd q - fst q) (telemetry_queries (snd ?X)) = [18000, 18000, 18000]"
    by (simp add: numeral_3_eq_3)
  with r l c show ?thesis by simp
qed

text \<open>
  C8, as amended. \<open>removeRelease(id)\<close> does not look at the state: it removes every
  entry with that id and succeeds iff there was one. Its caller
  \<open>DELETE /api/release/active\<close> is what guards it: the request fails with 409 when the
  active release is not \<open>not_started\<close> and with 404 when no release is active; a
  failed request changes nothing; and a request that succeeds found the active release
  \<open>not_started\<close> and removed the entries with its id.
\<close>

theorem C8_remove_release:
  "removeRelease rid h =
     (if \<exists>r \<in> set (releases h). release_id r = rid
      then (True, h\<lparr>releases := filter (\<lambda>r. release_id r \<noteq> rid) (releases h)\<rparr>)
      else (False, h))
   \<and> (connectionId \<noteq> [] \<and> getActiveRelease (release_history w connectionId) = Some active
       \<and> release_state active \<noteq> R_not_started
      \<longrightarrow> delete_release_active connectionId w
            = (Failed 409 ''Release has to be in a not_started state'', w))
   \<and> (connectionId \<noteq> [] \<and> getActiveRelease (release_history w connectionId) = None
      \<longrightarrow> delete_release_active connectionId w = (Failed 404 ''No active release found'', w))
   \<and> (delete_release_active connectionId w = (Ok_200 msg, w')
      \<longrightarrow> (\<exists>a. getActiveRelease (release_history w connectionId) = Some a
               \<and> release_state a = R_not_started
               \<and> releases (release_history w' connectionId)
                   = filter (\<lambda>r. release_id r \<noteq> release_id a)
                       (releases (release_history w connectionId))))
   \<and> (delete_release_active connectionId w = (Failed code msg, w') \<longrightarrow> w' = w)"
proof -
  have 2: "connectionId \<noteq> [] \<and> getActiveRelease (release_history w connectionId) = Some active
       \<and> release_state active \<noteq> R_not_started
      \<longrightarrow> delete_release_active connectionId w
            = (Failed 409 ''Release has to be in a not_started state'', w)"
    by (simp add: delete_release_active_def)
  have 3: "connectionId \<noteq> [] \<and> getActiveRelease (release_history w connectionId) = None
      \<longrightarrow> delete_release_active connectionId w = (Failed 404 ''No active release found'', w)"
    by (simp add: delete_release_active_def)
  have mem: "\<And>a. getActiveRelease (release_history w connectionId) = Some a \<Longrightarrow>
       \<exists>r \<in> set (releases (release_history w connectionId)). release_id r = release_id a"
    by (auto simp: getActiveRelease_def find_Some_iff)
  have 4: "delete_release_active connectionId w = (Ok_200 msg, w')
      \<longrightarrow> (\<exists>a. getActiveRelease (release_history w connectionId) = Some a
               \<and> release_state a = R_not_started
               \<and> releases (release_history w' connectionId)
                   = filter (\<lambda>r. release_id r \<noteq> release_id a)
                       (releases (release_history w connectionId)))"
    using mem
    by (auto simp: delete_release_active_def on_history_def removeRelease_eq Let_def
          split: if_splits option.splits)
  have 5: "delete_release_active connectionId w = (Failed code msg, w') \<longrightarrow> w' = w"
    using mem
    by (auto simp: delete_release_active_def on_history_def removeRelease_eq Let_def
          split: if_splits option.splits)
  from removeRelease_eq[of rid h] 2 3 4 5 show ?thesis by blast
qed

theorem C8_remove_release_witness:
  "delete_release_active ''conn'' scenario_world
     = (Failed 409 ''Release has to be in a not_started state'', scenario_world)
   \<and> delete_release_active ''other'' scenario_world
     = (Failed 404 ''No active release found'', scenario_world)
   \<and> removeRelease ''ab12cd34'' (release_history scenario_world ''conn'')
     = (True, \<lparr>releases = [], history_alarm = Some 1000\<rparr>)
   \<and> fst (delete_release_active ''conn'' staged_world) = Ok_200 ''Release deleted''
   \<and> releases (release_history (snd (delete_release_active ''conn'' staged_world)) ''conn'') = []"
proof -
  have a: "''conn'' \<noteq> []
       \<and> getActiveRelease (release_history scenario_world ''conn'') = Some scenario_release
       \<and> release_state scenario_release \<noteq> R_not_started"
    by (simp add: getActiveRelease_def scenario_world_def scenario_release_def)
  have b: "''other'' \<noteq> [] \<and> getActiveRelease (release_history scenario_world ''other'') = None"
    by (simp add: getActiveRelease_def scenario_world_def)
  have c: "\<exists>r \<in> set (releases (release_history scenario_world ''conn'')).
             release_id r = ''ab12cd34''"
    by (simp add: scenario_world_def scenario_release_def)
  have d: "(release_history scenario_world ''conn'')
             \<lparr>releases := filter (\<lambda>r. release_id r \<noteq> ''ab12cd34'')
                (releases (release_history scenario_world ''conn''))\<rparr>
           = \<lparr>releases = [], history_alarm = Some 1000\<rparr>"
    by (simp add: scenario_world_def scenario_release_def)
  from C8_remove_release[of "''ab12cd34''" "release_history scenario_world ''conn''"
         "''conn''" scenario_world scenario_release]
       a c d
  have 1: "delete_release_active ''conn'' scenario_world
     = (Failed 409 ''Release has to be in a not_started state'', scenario_world)"
    and 3: "removeRelease ''ab12cd34'' (release_history scenario_world ''conn'')
     = (True, \<lparr>releases = [], history_alarm = Some 1000\<rparr>)"
    by simp_all
  from C8_remove_release[of "''ab12cd34''" "release_history scenario_world ''conn''"
         "''other''" scenario_world] b
  have 2: "delete_release_active ''other'' scenario_world
     = (Failed 404 ''No active release found'', scenario_world)" by blast
  let ?D = "delete_release_active ''conn'' staged_world"
  have ok: "?D = (Ok_200 ''Release deleted'', snd ?D)"
    using staged_delete_ok by (metis prod.collapse)
  have st: "releases (release_history staged_world ''conn'')
              = [scenario_release\<lparr>release_state := R_not_started\<rparr>]"
    by (simp add: staged_world_def)
  from C8_remove_release[of "''ab12cd34''" "release_history scenario_world ''conn''"
         "''conn''" staged_world _ "''Release deleted''" "snd ?D"] ok
  obtain a0 where a0: "getActiveRelease (release_history staged_world ''conn'') = Some a0"
      "releases (release_history (snd ?D) ''conn'')
         = filter (\<lambda>r. release_id r \<noteq> release_id a0) (releases (release_history staged_world ''conn''))"
    by blast
  from a0(1) have "a0 = scenario_release\<lparr>release_state := R_not_started\<rparr>"
    by (simp add: getActiveRelease_def st)
  with a0(2) have 5: "releases (release_history (snd ?D) ''conn'') = []"
    by (simp add: st)
  from 1 2 3 staged_delete_ok 5 show ?thesis by blast
qed

text \<open>
  The claim as stated fails for \<open>removeRelease\<close>: it removes a release that is
  \<open>done_successful\<close>, and one that is \<open>running\<close>, and returns \<open>true\<close>.
\<close>

theorem C8_counterexample:
  "removeRelease ''ab12cd34''
      \<lparr>releases = [scenario_release\<lparr>release_state := R_done_successful\<rparr>],
       history_alarm = None\<rparr>
     = (True, \<lparr>releases = [], history_alarm = None\<rparr>)
   \<and> removeRelease ''ab12cd34'' \<lparr>releases = [scenario_release], history_alarm = None\<rparr>
     = (True, \<lparr>releases = [], history_alarm = None\<rparr>)
   \<and> release_state scenario_release = R_running"
  by (simp add: removeRelease_def scenario_release_def)

text \<open>
  C9. \<open>createRelease\<close> returns the release and leaves a history of at most 100
  entries: the new release first, then the first 99 of the old entries in their order;
  what is dropped is the end of the old list. If the old list with the new release in
  front is ordered by creation time, most recent first, so is the result.
\<close>

theorem C9_history_cap:
  "fst (createRelease r h) = r
   \<and> length (releases (snd (createRelease r h))) \<le> 100
   \<and> releases (snd (createRelease r h)) = r # take 99 (releases h)
   \<and> r # releases h = releases (snd (createRelease r h)) @ drop 99 (releases h)
   \<and> (sorted_wrt (\<lambda>a b. time_created a \<ge> time_created b) (r # releases h)
        \<longrightarrow> sorted_wrt (\<lambda>a b. time_created a \<ge> time_created b)
              (releases (snd (createRelease r h))))"
proof -
  have t: "releases (snd (createRelease r h)) = take 100 (r # releases h)"
    by (simp add: createRelease_take)
  have 1: "fst (createRelease r h) = r"
    by (simp add: createRelease_def)
  have 2: "length (releases (snd (createRelease r h))) \<le> 100"
    by (simp add: createRelease_take)
  have 3: "releases (snd (createRelease r h)) = r # take 99 (releases h)"
    by (rule createRelease_take)
  have 4: "r # releases h = releases (snd (createRelease r h)) @ drop 99 (releases h)"
    by (simp add: createRelease_take)
  have 5: "sorted_wrt (\<lambda>a b. time_created a \<ge> time_created b) (r # releases h)
        \<longrightarrow> sorted_wrt (\<lambda>a b. time_created a \<ge> time_created b)
              (releases (snd (createRelease r h)))"
    unfolding t by (blast intro: sorted_wrt_take_prefix)
  from 1 2 3 4 5 show ?thesis by blast
qed

theorem C9_history_cap_witness:
  "map time_created
     (releases (snd (createRelease (scenario_release\<lparr>time_created := 200\<rparr>)
        \<lparr>releases = replicate 100 (scenario_release\<lparr>time_created := 100\<rparr>),
         history_alarm = None\<rparr>)))
     = 200 # replicate 99 100
   \<and> sorted_wrt (\<lambda>a b. time_created a \<ge> time_created b)
       (releases (snd (createRelease (scenario_release\<lparr>time_created := 200\<rparr>)
          \<lparr>releases = replicate 100 (scenario_release\<lparr>time_created := 100\<rparr>),
           history_alarm = None\<rparr>)))"
proof -
  let ?h = "\<lparr>releases = replicate 100 (scenario_release\<lparr>time_created := 100\<rparr>),
            history_alarm = None\<rparr>"
  let ?r = "scenario_release\<lparr>time_created := 200\<rparr>"
  have s: "sorted_wrt (\<lambda>a b. time_created a \<ge> time_created b) (?r # releases ?h)"
    by (simp add: sorted_wrt_replicate)
  from C9_history_cap[of ?r ?h]
  have a: "releases (snd (createRelease ?r ?h)) = ?r # take 99 (releases ?h)"
    and b: "sorted_wrt (\<lambda>a b. time_created a \<ge> time_created b) (?r # releases ?h)
        \<longrightarrow> sorted_wrt (\<lambda>a b. time_created a \<ge> time_created b)
              (releases (snd (createRelease ?r ?h)))"
    by blast+
  from b s have c: "sorted_wrt (\<lambda>a b. time_created a \<ge> time_created b)
              (releases (snd (createRelease ?r ?h)))" by blast
  have "map time_created (releases (snd (createRelease ?r ?h))) = 200 # replicate 99 100"
    unfolding a by simp
  with c show ?thesis by blast
qed

text \<open>
  C10. On a stage object with no stored record, \<open>updateStageState\<close>, \<open>progressStage\<close>
  and \<open>addLog\<close> return \<open>null\<close> and leave the object (record and alarm) as it was.
\<close>

theorem C10_uninitialized_stage:
  "(main st = None \<longrightarrow>
       updateStageState now newState logs st = (None, st)
     \<and> progressStage now command st = (None, st)
     \<and> addLog now message st = (None, st))
   \<and> (main (stage_storage w sid) = None \<longrightarrow>
       on_stage sid (\<lambda>now. updateStageState now newState logs) w = (None, w)
     \<and> on_stage sid (\<lambda>now. progressStage now command) w = (None, w)
     \<and> on_stage sid (\<lambda>now. addLog now message) w = (None, w))"
  by (simp add: updateStageState_def progressStage_def addLog_def StageStorage_get_def
        on_stage_def)

theorem C10_uninitialized_stage_witness:
  "updateStageState 1000 S_running None \<lparr>main = None, alarm = None\<rparr>
     = (None, \<lparr>main = None, alarm = None\<rparr>)
   \<and> progressStage 1000 Approve \<lparr>main = None, alarm = None\<rparr>
     = (None, \<lparr>main = None, alarm = None\<rparr>)
   \<and> addLog 1000 ''note'' \<lparr>main = None, alarm = None\<rparr>
     = (None, \<lparr>main = None, alarm = None\<rparr>)
   \<and> on_stage (StageId ''ab12cd34'' 3) (\<lambda>now. progressStage now Deny) scenario_world
     = (None, scenario_world)"
proof -
  have a: "main \<lparr>main = None, alarm = None\<rparr> = None" by simp
  have b: "main (stage_storage scenario_world (StageId ''ab12cd34'' 3)) = None"
    by (simp add: scenario_world_def)
  from C10_uninitialized_stage[of "\<lparr>main = None, alarm = None\<rparr>" 1000 S_running None
          Approve "''note''" scenario_world "StageId ''ab12cd34'' 3"] a
  have 1: "updateStageState 1000 S_running None \<lparr>main = None, alarm = None\<rparr>
     = (None, \<lparr>main = None, alarm = None\<rparr>)
   \<and> progressStage 1000 Approve \<lparr>main = None, alarm = None\<rparr>
     = (None, \<lparr>main = None, alarm = None\<rparr>)
   \<and> addLog 1000 ''note'' \<lparr>main = None, alarm = None\<rparr>
     = (None, \<lparr>main = None, alarm = None\<rparr>)"
    by blast
  from C10_uninitialized_stage[of "\<lparr>main = None, alarm = None\<rparr>" 1000 S_running None
          Deny "''note''" scenario_world "StageId ''ab12cd34'' 3"] b
  have 2: "on_stage (StageId ''ab12cd34'' 3) (\<lambda>now. progressStage now Deny) scenario_world
     = (None, scenario_world)"
    by blast
  from 1 2 show ?thesis by blast
qed

end
